theory Spec2Isabelle
  imports Main
begin

section \<open>Weak pointers with a shared validity state (mapbox/weak.hpp)\<close>

text \<open>
  The header is embedded operation by operation, over an explicit heap of reference-counted
  control blocks. The standard library pieces the header relies on (\<^verbatim>\<open>std::shared_ptr\<close>,
  \<^verbatim>\<open>std::weak_ptr\<close>, \<^verbatim>\<open>std::shared_timed_mutex\<close>) are modelled by the small
  primitives of the first two subsections. Each member function is first a function that
  runs the whole call at once; the section on interleaved executions then lets threads take
  the same primitive actions one at a time. A call that cannot return because it waits for
  the mutex yields \<open>Blocked\<close>; a use the C++ standard leaves undefined yields
  \<open>Undefined_Behaviour\<close>; a failing \<^verbatim>\<open>assert\<close> yields \<open>Assertion_Failed\<close>
  (assertions are taken as enabled).
\<close>

datatype error = Blocked | Undefined_Behaviour | Assertion_Failed

definition bind_res :: "error + 'a \<Rightarrow> ('a \<Rightarrow> error + 'b) \<Rightarrow> error + 'b" where
  "bind_res m k = (case m of Inl e \<Rightarrow> Inl e | Inr x \<Rightarrow> k x)"

subsection \<open>\<^verbatim>\<open>internal::WeakPtrSharedData\<close>\<close>

text \<open>
  The members are \<^verbatim>\<open>mutex_\<close> (a reader/writer mutex: the number of shared holders and
  whether it is held exclusively) and the atomic flag \<^verbatim>\<open>valid_\<close>. A member
  \<^verbatim>\<open>name_\<close> of the source is the field \<open>name_m\<close> here, in every class.
\<close>

record WeakPtrSharedData =
  mutex_readers :: nat
  mutex_writer :: bool
  valid_m :: bool

text \<open>\<^verbatim>\<open>WeakPtrSharedData() = default\<close> with \<^verbatim>\<open>valid_{true}\<close>.\<close>

definition WeakPtrSharedData_ctor :: WeakPtrSharedData where
  "WeakPtrSharedData_ctor = \<lparr>mutex_readers = 0, mutex_writer = False, valid_m = True\<rparr>"

text \<open>The four mutex calls the header uses.\<close>

definition lock_shared :: "WeakPtrSharedData \<Rightarrow> error + WeakPtrSharedData" where
  "lock_shared d =
     (if mutex_writer d then Inl Blocked
      else Inr (d\<lparr>mutex_readers := Suc (mutex_readers d)\<rparr>))"

definition unlock_shared :: "WeakPtrSharedData \<Rightarrow> error + WeakPtrSharedData" where
  "unlock_shared d =
     (if mutex_readers d = 0 then Inl Undefined_Behaviour
      else Inr (d\<lparr>mutex_readers := mutex_readers d - 1\<rparr>))"

definition lock_exclusive :: "WeakPtrSharedData \<Rightarrow> error + WeakPtrSharedData" where
  "lock_exclusive d =
     (if mutex_writer d \<or> 0 < mutex_readers d then Inl Blocked
      else Inr (d\<lparr>mutex_writer := True\<rparr>))"

definition unlock_exclusive :: "WeakPtrSharedData \<Rightarrow> error + WeakPtrSharedData" where
  "unlock_exclusive d =
     (if mutex_writer d then Inr (d\<lparr>mutex_writer := False\<rparr>)
      else Inl Undefined_Behaviour)"

definition sharedLock :: "WeakPtrSharedData \<Rightarrow> error + WeakPtrSharedData" where
  "sharedLock d = lock_shared d"

definition sharedUnlock :: "WeakPtrSharedData \<Rightarrow> error + WeakPtrSharedData" where
  "sharedUnlock d = unlock_shared d"

text \<open>
  \<^verbatim>\<open>invalidate\<close>: the \<^verbatim>\<open>lock_guard\<close> takes the mutex exclusively, the flag is
  cleared, and the guard's destructor releases the mutex.
\<close>

definition invalidate :: "WeakPtrSharedData \<Rightarrow> error + WeakPtrSharedData" where
  "invalidate d =
     bind_res (lock_exclusive d) (\<lambda>d1. unlock_exclusive (d1\<lparr>valid_m := False\<rparr>))"

definition valid :: "WeakPtrSharedData \<Rightarrow> bool" where
  "valid d = valid_m d"

subsection \<open>The heap of control blocks: \<^verbatim>\<open>StrongRef\<close> and \<^verbatim>\<open>WeakRef\<close>\<close>

text \<open>
  A control block keeps the strong reference count and the managed object. The managed
  object is destroyed when the count reaches zero; the block itself is never reused, so an
  address is an index into a list that only grows. A \<^verbatim>\<open>shared_ptr\<close> or
  \<^verbatim>\<open>weak_ptr\<close> is an optional address, \<open>None\<close> being the empty pointer.
\<close>

record ctrl =
  use_count :: nat
  data :: WeakPtrSharedData

type_synonym addr = nat
type_synonym heap = "ctrl list"
type_synonym StrongRef = "addr option"
type_synonym WeakRef = "addr option"

definition make_shared :: "heap \<Rightarrow> StrongRef \<times> heap" where
  "make_shared hp =
     (Some (length hp), hp @ [\<lparr>use_count = 1, data = WeakPtrSharedData_ctor\<rparr>])"

definition alive :: "heap \<Rightarrow> addr option \<Rightarrow> bool" where
  "alive hp r = (case r of None \<Rightarrow> False | Some a \<Rightarrow> a < length hp \<and> 0 < use_count (hp ! a))"

text \<open>\<^verbatim>\<open>weak_ptr::lock\<close>: a new strong reference if the object still exists.\<close>

definition weak_lock :: "heap \<Rightarrow> WeakRef \<Rightarrow> StrongRef \<times> heap" where
  "weak_lock hp w =
     (case w of
        None \<Rightarrow> (None, hp)
      | Some a \<Rightarrow>
          if alive hp (Some a)
          then (Some a, hp[a := (hp ! a)\<lparr>use_count := Suc (use_count (hp ! a))\<rparr>])
          else (None, hp))"

text \<open>The destructor of a \<^verbatim>\<open>shared_ptr\<close>.\<close>

definition sp_release :: "heap \<Rightarrow> StrongRef \<Rightarrow> error + heap" where
  "sp_release hp s =
     (case s of
        None \<Rightarrow> Inr hp
      | Some a \<Rightarrow>
          if alive hp (Some a)
          then Inr (hp[a := (hp ! a)\<lparr>use_count := use_count (hp ! a) - 1\<rparr>])
          else Inl Undefined_Behaviour)"

text \<open>\<^verbatim>\<open>strong->op()\<close> for a member that changes the object, and \<^verbatim>\<open>strong->valid()\<close>.\<close>

definition deref_update ::
  "heap \<Rightarrow> StrongRef \<Rightarrow> (WeakPtrSharedData \<Rightarrow> error + WeakPtrSharedData) \<Rightarrow> error + heap" where
  "deref_update hp s f =
     (case s of
        None \<Rightarrow> Inl Undefined_Behaviour
      | Some a \<Rightarrow>
          if alive hp (Some a)
          then bind_res (f (data (hp ! a))) (\<lambda>d. Inr (hp[a := (hp ! a)\<lparr>data := d\<rparr>]))
          else Inl Undefined_Behaviour)"

definition deref_valid :: "heap \<Rightarrow> StrongRef \<Rightarrow> error + bool" where
  "deref_valid hp s =
     (case s of
        None \<Rightarrow> Inl Undefined_Behaviour
      | Some a \<Rightarrow> if alive hp (Some a) then Inr (valid (data (hp ! a))) else Inl Undefined_Behaviour)"

subsection \<open>\<^verbatim>\<open>WeakPtrGuard\<close>\<close>

datatype WeakPtrGuard = WeakPtrGuard (guard_strong_m: StrongRef)

text \<open>The private constructor with its assertion \<^verbatim>\<open>!strong_ || strong_->valid()\<close>.\<close>

definition WeakPtrGuard_ctor :: "heap \<Rightarrow> StrongRef \<Rightarrow> error + WeakPtrGuard" where
  "WeakPtrGuard_ctor hp strong =
     (case strong of
        None \<Rightarrow> Inr (WeakPtrGuard None)
      | Some a \<Rightarrow>
          bind_res (deref_valid hp (Some a))
            (\<lambda>v. if v then Inr (WeakPtrGuard (Some a)) else Inl Assertion_Failed))"

text \<open>The move constructor: the new guard and what is left of the source.\<close>

definition WeakPtrGuard_move :: "WeakPtrGuard \<Rightarrow> WeakPtrGuard \<times> WeakPtrGuard" where
  "WeakPtrGuard_move g = (WeakPtrGuard (guard_strong_m g), WeakPtrGuard None)"

text \<open>The destructor, followed by the destruction of the member \<^verbatim>\<open>strong_\<close>.\<close>

definition WeakPtrGuard_dtor :: "heap \<Rightarrow> WeakPtrGuard \<Rightarrow> error + heap" where
  "WeakPtrGuard_dtor hp g =
     (case guard_strong_m g of
        None \<Rightarrow> Inr hp
      | Some a \<Rightarrow>
          bind_res (deref_update hp (Some a) sharedUnlock) (\<lambda>hp1. sp_release hp1 (Some a)))"

subsection \<open>\<^verbatim>\<open>internal::WeakPtrBase\<close> and \<^verbatim>\<open>WeakPtr\<close>\<close>

text \<open>
  A raw \<^verbatim>\<open>Object*\<close> is an optional object identity, \<open>None\<close> being \<^verbatim>\<open>nullptr\<close>.
  \<^verbatim>\<open>WeakPtr\<close> adds no member to its base.
\<close>

record 'o WeakPtrBase =
  weak_m :: WeakRef
  ptr_m :: "'o option"

type_synonym 'o WeakPtr = "'o WeakPtrBase"

definition lock :: "heap \<Rightarrow> 'o WeakPtr \<Rightarrow> error + (WeakPtrGuard \<times> heap)" where
  "lock hp w =
     (case weak_lock hp (weak_m w) of
        (Some a, hp1) \<Rightarrow>
          bind_res (deref_update hp1 (Some a) sharedLock) (\<lambda>hp2.
          bind_res (deref_valid hp2 (Some a)) (\<lambda>v.
            if v then bind_res (WeakPtrGuard_ctor hp2 (Some a)) (\<lambda>g. Inr (g, hp2))
            else
              bind_res (deref_update hp2 (Some a) sharedUnlock) (\<lambda>hp3.
              bind_res (sp_release hp3 (Some a)) (\<lambda>hp4.
              bind_res (WeakPtrGuard_ctor hp4 None) (\<lambda>g. Inr (g, hp4))))))
      | (None, hp1) \<Rightarrow> bind_res (WeakPtrGuard_ctor hp1 None) (\<lambda>g. Inr (g, hp1)))"

definition expired :: "heap \<Rightarrow> 'o WeakPtr \<Rightarrow> error + (bool \<times> heap)" where
  "expired hp w =
     (case weak_lock hp (weak_m w) of
        (Some a, hp1) \<Rightarrow>
          bind_res (deref_valid hp1 (Some a)) (\<lambda>v.
          bind_res (sp_release hp1 (Some a)) (\<lambda>hp2. Inr (\<not> v, hp2)))
      | (None, hp1) \<Rightarrow> Inr (True, hp1))"

definition operator_bool :: "heap \<Rightarrow> 'o WeakPtr \<Rightarrow> error + (bool \<times> heap)" where
  "operator_bool hp w = bind_res (expired hp w) (\<lambda>(e, hp1). Inr (\<not> e, hp1))"

definition object :: "heap \<Rightarrow> 'o WeakPtr \<Rightarrow> error + ('o option \<times> heap)" where
  "object hp w =
     (case weak_lock hp (weak_m w) of
        (Some a, hp1) \<Rightarrow>
          bind_res (deref_valid hp1 (Some a)) (\<lambda>v.
          bind_res (sp_release hp1 (Some a)) (\<lambda>hp2.
            if v then Inr (ptr_m w, hp2) else Inr (None, hp2)))
      | (None, hp1) \<Rightarrow> Inr (None, hp1))"

text \<open>The constructors. A move leaves the source's \<^verbatim>\<open>weak_\<close> empty and its \<^verbatim>\<open>ptr_\<close> as it was.\<close>

definition WeakPtr_default :: "'o WeakPtr" where
  "WeakPtr_default = \<lparr>weak_m = None, ptr_m = None\<rparr>"

definition WeakPtr_copy :: "'o WeakPtr \<Rightarrow> 'o WeakPtr" where
  "WeakPtr_copy other = \<lparr>weak_m = weak_m other, ptr_m = ptr_m other\<rparr>"

definition WeakPtr_move :: "'o WeakPtr \<Rightarrow> 'o WeakPtr \<times> 'o WeakPtr" where
  "WeakPtr_move other = (\<lparr>weak_m = weak_m other, ptr_m = ptr_m other\<rparr>, other\<lparr>weak_m := None\<rparr>)"

text \<open>
  The converting move constructor; \<open>up\<close> is the \<^verbatim>\<open>static_cast\<close> from \<^verbatim>\<open>U*\<close> to
  \<^verbatim>\<open>Object*\<close> on non-null pointers (a null pointer stays null).
\<close>

definition WeakPtr_convert :: "('u \<Rightarrow> 'o) \<Rightarrow> 'u WeakPtr \<Rightarrow> 'o WeakPtr \<times> 'u WeakPtr" where
  "WeakPtr_convert up other =
     (\<lparr>weak_m = weak_m other, ptr_m = map_option up (ptr_m other)\<rparr>, other\<lparr>weak_m := None\<rparr>)"

text \<open>The private constructor from a link and a pointer, with \<^verbatim>\<open>assert(ptr_)\<close>.\<close>

definition WeakPtr_ctor :: "WeakRef \<Rightarrow> 'o option \<Rightarrow> error + 'o WeakPtr" where
  "WeakPtr_ctor weak ptr =
     (if ptr = None then Inl Assertion_Failed else Inr \<lparr>weak_m = weak, ptr_m = ptr\<rparr>)"

definition operator_arrow :: "heap \<Rightarrow> 'o WeakPtr \<Rightarrow> error + ('o \<times> heap)" where
  "operator_arrow hp w =
     bind_res (object hp w) (\<lambda>(p, hp1).
       case p of None \<Rightarrow> Inl Assertion_Failed | Some x \<Rightarrow> Inr (x, hp1))"

subsection \<open>\<^verbatim>\<open>WeakPtrFactory\<close>\<close>

record 'o WeakPtrFactory =
  strong_m :: StrongRef
  obj_m :: "'o option"

definition WeakPtrFactory_ctor :: "heap \<Rightarrow> 'o option \<Rightarrow> 'o WeakPtrFactory \<times> heap" where
  "WeakPtrFactory_ctor hp obj =
     (case make_shared hp of (s, hp1) \<Rightarrow> (\<lparr>strong_m = s, obj_m = obj\<rparr>, hp1))"

text \<open>The destructor body, followed by the destruction of the member \<^verbatim>\<open>strong_\<close>.\<close>

definition WeakPtrFactory_dtor :: "heap \<Rightarrow> 'o WeakPtrFactory \<Rightarrow> error + heap" where
  "WeakPtrFactory_dtor hp f =
     bind_res (deref_update hp (strong_m f) invalidate) (\<lambda>hp1. sp_release hp1 (strong_m f))"

definition makeWeakPtr :: "'o WeakPtrFactory \<Rightarrow> error + 'o WeakPtr" where
  "makeWeakPtr f = WeakPtr_ctor (strong_m f) (obj_m f)"

text \<open>
  \<^verbatim>\<open>makeWeakMethod\<close> returns a closure over a fresh weak pointer and the method. A method
  acts on the state \<open>'w\<close> of the host program, given the object and the arguments.
\<close>

type_synonym ('o, 'p, 'w) member_fn = "'o \<Rightarrow> 'p \<Rightarrow> 'w \<Rightarrow> 'w"

definition makeWeakMethod ::
  "'o WeakPtrFactory \<Rightarrow> ('o, 'p, 'w) member_fn \<Rightarrow> error + ('o WeakPtr \<times> ('o, 'p, 'w) member_fn)" where
  "makeWeakMethod f m = bind_res (makeWeakPtr f) (\<lambda>weakPtr. Inr (weakPtr, m))"

text \<open>Calling the closure; the guard is destroyed when the body is left.\<close>

definition call_weak_method ::
  "'o WeakPtr \<times> ('o, 'p, 'w) member_fn \<Rightarrow> 'p \<Rightarrow> 'w \<times> heap \<Rightarrow> error + ('w \<times> heap)" where
  "call_weak_method c params s =
     (case c of (weakPtr, m) \<Rightarrow> case s of (world, hp) \<Rightarrow>
        bind_res (lock hp weakPtr) (\<lambda>(guard, hp1).
        bind_res (object hp1 weakPtr) (\<lambda>(p, hp2).
          let world' = (case p of Some obj \<Rightarrow> m obj params world | None \<Rightarrow> world)
          in bind_res (WeakPtrGuard_dtor hp2 guard) (\<lambda>hp3. Inr (world', hp3)))))"

subsection \<open>Observations on the heap\<close>

text \<open>
  \<open>alive hp r\<close> says that the Validity State linked by \<open>r\<close> still exists; \<open>flag hp r\<close>
  reads its liveness flag. \<open>held a hp\<close> is the heap after a caller took a strong
  reference to block \<open>a\<close> and a shared hold of its mutex.
\<close>

definition flag :: "heap \<Rightarrow> addr option \<Rightarrow> bool" where
  "flag hp r = (case r of None \<Rightarrow> False | Some a \<Rightarrow> valid (data (hp ! a)))"

definition writer_held :: "heap \<Rightarrow> addr option \<Rightarrow> bool" where
  "writer_held hp r = (case r of None \<Rightarrow> False | Some a \<Rightarrow> mutex_writer (data (hp ! a)))"

definition held :: "addr \<Rightarrow> heap \<Rightarrow> heap" where
  "held a hp =
     hp[a := (hp ! a)\<lparr>use_count := Suc (use_count (hp ! a)),
              data := (data (hp ! a))\<lparr>mutex_readers := Suc (mutex_readers (data (hp ! a)))\<rparr>\<rparr>]"

text \<open>
  A link is well formed when it is empty or names an allocated control block, as every
  \<^verbatim>\<open>weak_ptr\<close> and \<^verbatim>\<open>shared_ptr\<close> of a C++ program does.
\<close>

definition linked :: "heap \<Rightarrow> addr option \<Rightarrow> bool" where
  "linked hp r = (case r of None \<Rightarrow> True | Some a \<Rightarrow> a < length hp)"

text \<open>A handle is derived from a factory when its link is the factory's Validity State.\<close>

definition derived_from :: "'u WeakPtrFactory \<Rightarrow> 'o WeakPtr \<Rightarrow> bool" where
  "derived_from f w = (weak_m w = strong_m f)"

text \<open>
  The order in which heaps evolve: blocks are only added, a cleared flag stays cleared, a
  destroyed object stays destroyed, and no call leaves a mutex held exclusively.
\<close>

definition heap_le :: "heap \<Rightarrow> heap \<Rightarrow> bool" where
  "heap_le hp hp' =
     (length hp \<le> length hp' \<and>
      (\<forall>a < length hp.
         (\<not> flag hp (Some a) \<longrightarrow> \<not> flag hp' (Some a)) \<and>
         (use_count (hp ! a) = 0 \<longrightarrow> use_count (hp' ! a) = 0) \<and>
         writer_held hp' (Some a) = writer_held hp (Some a)))"

text \<open>A control block with the given count, number of shared holders and flag, its mutex not held exclusively.\<close>

abbreviation block :: "nat \<Rightarrow> nat \<Rightarrow> bool \<Rightarrow> ctrl" where
  "block n r v \<equiv> \<lparr>use_count = n, data = \<lparr>mutex_readers = r, mutex_writer = False, valid_m = v\<rparr>\<rparr>"

subsection \<open>Runs of the Validity State and of the library\<close>

text \<open>The four member functions of \<^verbatim>\<open>WeakPtrSharedData\<close> as the steps of a state machine.\<close>

datatype sd_call = SharedLock | SharedUnlock | Invalidate | Valid

fun sd_step :: "WeakPtrSharedData \<Rightarrow> sd_call \<Rightarrow> error + WeakPtrSharedData" where
  "sd_step d SharedLock = sharedLock d"
| "sd_step d SharedUnlock = sharedUnlock d"
| "sd_step d Invalidate = invalidate d"
| "sd_step d Valid = Inr d"

text \<open>The states a sequence of calls goes through, up to the first call that does not return.\<close>

fun sd_trace :: "WeakPtrSharedData \<Rightarrow> sd_call list \<Rightarrow> WeakPtrSharedData list" where
  "sd_trace d [] = [d]"
| "sd_trace d (c # cs) =
     d # (case sd_step d c of Inl e \<Rightarrow> [] | Inr d' \<Rightarrow> sd_trace d' cs)"

fun sd_run :: "WeakPtrSharedData \<Rightarrow> sd_call list \<Rightarrow> error + WeakPtrSharedData" where
  "sd_run d [] = Inr d"
| "sd_run d (c # cs) = bind_res (sd_step d c) (\<lambda>d'. sd_run d' cs)"

text \<open>How often a sequence of flag values goes from true to false, and from false to true.\<close>

fun falls :: "bool list \<Rightarrow> nat" where
  "falls (x # y # xs) = (if x \<and> \<not> y then 1 else 0) + falls (y # xs)"
| "falls xs = 0"

fun rises :: "bool list \<Rightarrow> nat" where
  "rises (x # y # xs) = (if \<not> x \<and> y then 1 else 0) + rises (y # xs)"
| "rises xs = 0"

text \<open>
  The calls a host program can make on the library, each with the values it passes. The
  results (guards, booleans, pointers) go to the host; a run keeps the heap and the host's
  own state.
\<close>

datatype ('o, 'p, 'w) call =
    New_Factory "'o option"
  | Destroy_Factory "'o WeakPtrFactory"
  | Lock "'o WeakPtr"
  | Destroy_Guard WeakPtrGuard
  | Expired "'o WeakPtr"
  | Operator_Bool "'o WeakPtr"
  | Object "'o WeakPtr"
  | Operator_Arrow "'o WeakPtr"
  | Call_Weak_Method "'o WeakPtr \<times> ('o, 'p, 'w) member_fn" 'p

fun step :: "'w \<times> heap \<Rightarrow> ('o, 'p, 'w) call \<Rightarrow> error + ('w \<times> heap)" where
  "step (wd, hp) (New_Factory obj) = Inr (wd, snd (WeakPtrFactory_ctor hp obj))"
| "step (wd, hp) (Destroy_Factory f) =
     bind_res (WeakPtrFactory_dtor hp f) (\<lambda>hp'. Inr (wd, hp'))"
| "step (wd, hp) (Lock w) = bind_res (lock hp w) (\<lambda>(g, hp'). Inr (wd, hp'))"
| "step (wd, hp) (Destroy_Guard g) =
     bind_res (WeakPtrGuard_dtor hp g) (\<lambda>hp'. Inr (wd, hp'))"
| "step (wd, hp) (Expired w) = bind_res (expired hp w) (\<lambda>(b, hp'). Inr (wd, hp'))"
| "step (wd, hp) (Operator_Bool w) =
     bind_res (operator_bool hp w) (\<lambda>(b, hp'). Inr (wd, hp'))"
| "step (wd, hp) (Object w) = bind_res (object hp w) (\<lambda>(p, hp'). Inr (wd, hp'))"
| "step (wd, hp) (Operator_Arrow w) =
     bind_res (operator_arrow hp w) (\<lambda>(x, hp'). Inr (wd, hp'))"
| "step (wd, hp) (Call_Weak_Method c params) = call_weak_method c params (wd, hp)"

fun run :: "'w \<times> heap \<Rightarrow> ('o, 'p, 'w) call list \<Rightarrow> error + ('w \<times> heap)" where
  "run s [] = Inr s"
| "run s (c # cs) = bind_res (step s c) (\<lambda>s'. run s' cs)"

subsection \<open>Interleaved executions\<close>

text \<open>
  Threads run the calls of the library concurrently. The atomic actions of a call are the
  calls it makes on \<^verbatim>\<open>weak_ptr\<close>, \<^verbatim>\<open>shared_ptr\<close>, the mutex and the atomic flag, in
  the order of the source; a program counter says which action of which call a thread is
  about to take, on which control block, and \<open>guards\<close> lists the non-empty Guards the
  thread holds. \<^verbatim>\<open>expired()\<close> and \<^verbatim>\<open>object()\<close> take the same actions on the heap
  (\<open>Query\<close>). An action that has to wait, or whose behaviour is undefined, is not a step.
\<close>

datatype pc =
    Idle
  | Lock_sharedLock addr
  | Lock_valid addr
  | Lock_ctor addr
  | Lock_sharedUnlock addr
  | Lock_release addr
  | Guard_release addr
  | Query_valid addr
  | Query_release addr
  | Dtor_store addr
  | Dtor_unlock addr
  | Dtor_release addr
  | Aborted

record thread =
  guards :: "addr list"
  pc :: pc

inductive thread_step :: "heap \<times> thread \<Rightarrow> heap \<times> thread \<Rightarrow> bool" where
  lock_begin:
    "pc t = Idle \<Longrightarrow> weak_lock hp w = (Some a, hp') \<Longrightarrow>
       thread_step (hp, t) (hp', t\<lparr>pc := Lock_sharedLock a\<rparr>)"
| lock_empty:
    "pc t = Idle \<Longrightarrow> weak_lock hp w = (None, hp') \<Longrightarrow>
       WeakPtrGuard_ctor hp' None = Inr g \<Longrightarrow> thread_step (hp, t) (hp', t)"
| lock_sharedLock:
    "pc t = Lock_sharedLock a \<Longrightarrow> deref_update hp (Some a) sharedLock = Inr hp' \<Longrightarrow>
       thread_step (hp, t) (hp', t\<lparr>pc := Lock_valid a\<rparr>)"
| lock_valid:
    "pc t = Lock_valid a \<Longrightarrow> deref_valid hp (Some a) = Inr True \<Longrightarrow>
       thread_step (hp, t) (hp, t\<lparr>pc := Lock_ctor a\<rparr>)"
| lock_invalid:
    "pc t = Lock_valid a \<Longrightarrow> deref_valid hp (Some a) = Inr False \<Longrightarrow>
       thread_step (hp, t) (hp, t\<lparr>pc := Lock_sharedUnlock a\<rparr>)"
| lock_ctor:
    "pc t = Lock_ctor a \<Longrightarrow> WeakPtrGuard_ctor hp (Some a) = Inr g \<Longrightarrow>
       thread_step (hp, t) (hp, t\<lparr>guards := a # guards t, pc := Idle\<rparr>)"
| lock_ctor_fails:
    "pc t = Lock_ctor a \<Longrightarrow> WeakPtrGuard_ctor hp (Some a) = Inl Assertion_Failed \<Longrightarrow>
       thread_step (hp, t) (hp, t\<lparr>pc := Aborted\<rparr>)"
| lock_sharedUnlock:
    "pc t = Lock_sharedUnlock a \<Longrightarrow> deref_update hp (Some a) sharedUnlock = Inr hp' \<Longrightarrow>
       thread_step (hp, t) (hp', t\<lparr>pc := Lock_release a\<rparr>)"
| lock_release:
    "pc t = Lock_release a \<Longrightarrow> sp_release hp (Some a) = Inr hp' \<Longrightarrow>
       WeakPtrGuard_ctor hp' None = Inr g \<Longrightarrow> thread_step (hp, t) (hp', t\<lparr>pc := Idle\<rparr>)"
| guard_sharedUnlock:
    "pc t = Idle \<Longrightarrow> a \<in> set (guards t) \<Longrightarrow>
       deref_update hp (Some a) sharedUnlock = Inr hp' \<Longrightarrow>
       thread_step (hp, t) (hp', t\<lparr>guards := remove1 a (guards t), pc := Guard_release a\<rparr>)"
| guard_release:
    "pc t = Guard_release a \<Longrightarrow> sp_release hp (Some a) = Inr hp' \<Longrightarrow>
       thread_step (hp, t) (hp', t\<lparr>pc := Idle\<rparr>)"
| query_begin:
    "pc t = Idle \<Longrightarrow> weak_lock hp w = (Some a, hp') \<Longrightarrow>
       thread_step (hp, t) (hp', t\<lparr>pc := Query_valid a\<rparr>)"
| query_valid:
    "pc t = Query_valid a \<Longrightarrow> deref_valid hp (Some a) = Inr v \<Longrightarrow>
       thread_step (hp, t) (hp, t\<lparr>pc := Query_release a\<rparr>)"
| query_release:
    "pc t = Query_release a \<Longrightarrow> sp_release hp (Some a) = Inr hp' \<Longrightarrow>
       thread_step (hp, t) (hp', t\<lparr>pc := Idle\<rparr>)"
| factory_ctor:
    "pc t = Idle \<Longrightarrow> thread_step (hp, t) (snd (make_shared hp), t)"
| dtor_lock:
    "pc t = Idle \<Longrightarrow> deref_update hp (Some a) lock_exclusive = Inr hp' \<Longrightarrow>
       thread_step (hp, t) (hp', t\<lparr>pc := Dtor_store a\<rparr>)"
| dtor_store:
    "pc t = Dtor_store a \<Longrightarrow>
       deref_update hp (Some a) (\<lambda>d. Inr (d\<lparr>valid_m := False\<rparr>)) = Inr hp' \<Longrightarrow>
       thread_step (hp, t) (hp', t\<lparr>pc := Dtor_unlock a\<rparr>)"
| dtor_unlock:
    "pc t = Dtor_unlock a \<Longrightarrow> deref_update hp (Some a) unlock_exclusive = Inr hp' \<Longrightarrow>
       thread_step (hp, t) (hp', t\<lparr>pc := Dtor_release a\<rparr>)"
| dtor_release:
    "pc t = Dtor_release a \<Longrightarrow> sp_release hp (Some a) = Inr hp' \<Longrightarrow>
       thread_step (hp, t) (hp', t\<lparr>pc := Idle\<rparr>)"

text \<open>Any thread takes its next action, or a new thread starts.\<close>

inductive sys_step :: "heap \<times> thread list \<Rightarrow> heap \<times> thread list \<Rightarrow> bool" where
  run_thread:
    "i < length ts \<Longrightarrow> thread_step (hp, ts ! i) (hp', t') \<Longrightarrow>
       sys_step (hp, ts) (hp', ts[i := t'])"
| new_thread:
    "sys_step (hp, ts) (hp, ts @ [\<lparr>guards = [], pc = Idle\<rparr>])"

inductive reachable :: "heap \<times> thread list \<Rightarrow> bool" where
  initial: "reachable ([], [])"
| later: "reachable s \<Longrightarrow> sys_step s s' \<Longrightarrow> reachable s'"

text \<open>
  What a thread contributes to the mutex of block \<open>a\<close>, whether it has seen the flag of
  \<open>a\<close> true under the shared lock it still holds, and the invariant of the protocol.
\<close>

fun pc_shared :: "addr \<Rightarrow> pc \<Rightarrow> nat" where
  "pc_shared a (Lock_valid b) = (if a = b then 1 else 0)"
| "pc_shared a (Lock_ctor b) = (if a = b then 1 else 0)"
| "pc_shared a (Lock_sharedUnlock b) = (if a = b then 1 else 0)"
| "pc_shared a p = 0"

fun pc_exclusive :: "addr \<Rightarrow> pc \<Rightarrow> nat" where
  "pc_exclusive a (Dtor_store b) = (if a = b then 1 else 0)"
| "pc_exclusive a (Dtor_unlock b) = (if a = b then 1 else 0)"
| "pc_exclusive a p = 0"

fun pc_names :: "pc \<Rightarrow> addr option" where
  "pc_names Idle = None"
| "pc_names (Lock_sharedLock a) = Some a"
| "pc_names (Lock_valid a) = Some a"
| "pc_names (Lock_ctor a) = Some a"
| "pc_names (Lock_sharedUnlock a) = Some a"
| "pc_names (Lock_release a) = Some a"
| "pc_names (Guard_release a) = Some a"
| "pc_names (Query_valid a) = Some a"
| "pc_names (Query_release a) = Some a"
| "pc_names (Dtor_store a) = Some a"
| "pc_names (Dtor_unlock a) = Some a"
| "pc_names (Dtor_release a) = Some a"
| "pc_names Aborted = None"

definition shared_holds :: "addr \<Rightarrow> thread \<Rightarrow> nat" where
  "shared_holds a t = count_list (guards t) a + pc_shared a (pc t)"

definition exclusive_holds :: "addr \<Rightarrow> thread \<Rightarrow> nat" where
  "exclusive_holds a t = pc_exclusive a (pc t)"

definition saw_valid :: "addr \<Rightarrow> thread \<Rightarrow> bool" where
  "saw_valid a t = (a \<in> set (guards t) \<or> pc t = Lock_ctor a)"

definition thread_ok :: "heap \<Rightarrow> thread \<Rightarrow> bool" where
  "thread_ok hp t =
     (pc t \<noteq> Aborted \<and> linked hp (pc_names (pc t)) \<and> (\<forall>a \<in> set (guards t). a < length hp))"

definition protocol_inv :: "heap \<times> thread list \<Rightarrow> bool" where
  "protocol_inv s =
     (case s of (hp, ts) \<Rightarrow>
        (\<forall>t \<in> set ts. thread_ok hp t) \<and>
        (\<forall>a < length hp.
           mutex_readers (data (hp ! a)) = sum_list (map (shared_holds a) ts) \<and>
           sum_list (map (exclusive_holds a) ts) = (if mutex_writer (data (hp ! a)) then 1 else 0) \<and>
           (mutex_writer (data (hp ! a)) \<longrightarrow> mutex_readers (data (hp ! a)) = 0) \<and>
           (\<forall>t \<in> set ts. saw_valid a t \<longrightarrow> valid_m (data (hp ! a)))))"

section \<open>What each call returns\<close>

lemma bind_res_simps [simp]:
  "bind_res (Inl e) k = Inl e"
  "bind_res (Inr x) k = k x"
  by (simp_all add: bind_res_def)

lemma bind_res_Inr_iff:
  "bind_res m k = Inr y \<longleftrightarrow> (\<exists>x. m = Inr x \<and> k x = Inr y)"
  by (cases m) simp_all

lemmas prim_defs =
  alive_def flag_def writer_held_def held_def linked_def derived_from_def valid_def
  WeakPtrSharedData_ctor_def make_shared_def weak_lock_def sp_release_def deref_update_def
  deref_valid_def sharedLock_def sharedUnlock_def lock_shared_def unlock_shared_def
  lock_exclusive_def unlock_exclusive_def invalidate_def

lemmas call_defs =
  WeakPtrGuard_ctor_def WeakPtrGuard_dtor_def WeakPtrGuard_move_def WeakPtr_default_def
  WeakPtr_copy_def WeakPtr_move_def WeakPtr_convert_def WeakPtr_ctor_def
  WeakPtrFactory_ctor_def WeakPtrFactory_dtor_def makeWeakPtr_def makeWeakMethod_def

lemma expired_eq:
  "expired hp w = Inr (\<not> (alive hp (weak_m w) \<and> flag hp (weak_m w)), hp)"
  by (cases "weak_m w")
     (auto simp: expired_def weak_lock_def alive_def deref_valid_def sp_release_def
                 valid_def flag_def list_update_same_conv)

lemma operator_bool_eq:
  "operator_bool hp w = Inr (alive hp (weak_m w) \<and> flag hp (weak_m w), hp)"
  by (simp add: operator_bool_def expired_eq)

lemma object_eq:
  "object hp w =
     Inr (if alive hp (weak_m w) \<and> flag hp (weak_m w) then ptr_m w else None, hp)"
  by (cases "weak_m w")
     (auto simp: object_def weak_lock_def alive_def deref_valid_def sp_release_def
                 valid_def flag_def list_update_same_conv)

lemma lock_eq:
  "lock hp w =
     (case weak_m w of
        None \<Rightarrow> Inr (WeakPtrGuard None, hp)
      | Some a \<Rightarrow>
          if \<not> alive hp (Some a) then Inr (WeakPtrGuard None, hp)
          else if writer_held hp (Some a) then Inl Blocked
          else if flag hp (Some a) then Inr (WeakPtrGuard (Some a), held a hp)
          else Inr (WeakPtrGuard None, hp))"
  by (cases "weak_m w")
     (auto simp: lock_def weak_lock_def alive_def deref_valid_def deref_update_def
                 sp_release_def valid_def flag_def held_def sharedLock_def sharedUnlock_def
                 lock_shared_def unlock_shared_def WeakPtrGuard_ctor_def writer_held_def
                 list_update_same_conv)

lemma held_props:
  assumes "a < length hp"
  shows "length (held a hp) = length hp"
    and "alive (held a hp) (Some a)"
    and "flag (held a hp) (Some a) = flag hp (Some a)"
    and "mutex_readers (data (held a hp ! a)) = Suc (mutex_readers (data (hp ! a)))"
    and "use_count (held a hp ! a) = Suc (use_count (hp ! a))"
    and "writer_held (held a hp) (Some a) = writer_held hp (Some a)"
  using assms by (simp_all add: held_def alive_def flag_def valid_def writer_held_def)

lemma guard_dtor_held:
  assumes "a < length hp"
  shows "WeakPtrGuard_dtor (held a hp) (WeakPtrGuard (Some a)) = Inr hp"
  using assms
  by (simp add: WeakPtrGuard_dtor_def deref_update_def sp_release_def alive_def held_def
                sharedUnlock_def unlock_shared_def list_update_same_conv)

lemma call_weak_method_eq:
  "call_weak_method (w, m) ps (wd, hp) =
     (if alive hp (weak_m w) \<and> writer_held hp (weak_m w) then Inl Blocked
      else if alive hp (weak_m w) \<and> flag hp (weak_m w)
        then Inr (case ptr_m w of Some obj \<Rightarrow> m obj ps wd | None \<Rightarrow> wd, hp)
        else Inr (wd, hp))"
proof (cases "weak_m w")
  case None
  then show ?thesis
    by (simp add: call_weak_method_def lock_eq object_eq alive_def WeakPtrGuard_dtor_def)
next
  case (Some a)
  show ?thesis
  proof (cases "alive hp (Some a) \<and> \<not> writer_held hp (Some a) \<and> flag hp (Some a)")
    case True
    then have a: "a < length hp" by (simp add: alive_def)
    from True a show ?thesis
      by (simp add: call_weak_method_def lock_eq object_eq Some held_props guard_dtor_held)
  next
    case False
    then show ?thesis
      by (auto simp: call_weak_method_def lock_eq object_eq Some WeakPtrGuard_dtor_def)
  qed
qed

section \<open>Heaps only move forward\<close>

lemma heap_le_refl: "heap_le hp hp"
  by (simp add: heap_le_def)

lemma heap_le_trans: "heap_le h1 h2 \<Longrightarrow> heap_le h2 h3 \<Longrightarrow> heap_le h1 h3"
  by (fastforce simp: heap_le_def)

lemma heap_le_held: "alive hp (Some a) \<Longrightarrow> heap_le hp (held a hp)"
  by (auto simp: heap_le_def held_def flag_def valid_def writer_held_def alive_def
                 nth_list_update)

lemma heap_le_make_shared: "heap_le hp (snd (make_shared hp))"
  by (auto simp: heap_le_def make_shared_def flag_def writer_held_def nth_append)

lemma heap_le_sp_release: "sp_release hp s = Inr hp' \<Longrightarrow> heap_le hp hp'"
  by (cases s)
     (auto simp: sp_release_def heap_le_def flag_def writer_held_def alive_def nth_list_update
           split: if_splits)

lemma heap_le_deref_update:
  assumes "deref_update hp s f = Inr hp'"
    and "\<And>d d'. f d = Inr d' \<Longrightarrow>
           (\<not> valid_m d \<longrightarrow> \<not> valid_m d') \<and> mutex_writer d' = mutex_writer d"
  shows "heap_le hp hp'"
proof (cases s)
  case None
  with assms(1) show ?thesis by (simp add: deref_update_def)
next
  case (Some a)
  with assms(1) obtain d' where a: "a < length hp"
    and f: "f (data (hp ! a)) = Inr d'"
    and hp': "hp' = hp[a := (hp ! a)\<lparr>data := d'\<rparr>]"
    by (auto simp: deref_update_def alive_def bind_res_Inr_iff split: if_splits)
  from assms(2)[OF f] a show ?thesis
    by (auto simp: hp' heap_le_def flag_def valid_def writer_held_def nth_list_update)
qed

lemma sharedUnlock_keeps:
  "sharedUnlock d = Inr d' \<Longrightarrow>
     (\<not> valid_m d \<longrightarrow> \<not> valid_m d') \<and> mutex_writer d' = mutex_writer d"
  by (auto simp: sharedUnlock_def unlock_shared_def split: if_splits)

lemma invalidate_keeps:
  "invalidate d = Inr d' \<Longrightarrow>
     (\<not> valid_m d \<longrightarrow> \<not> valid_m d') \<and> mutex_writer d' = mutex_writer d"
  by (auto simp: invalidate_def lock_exclusive_def unlock_exclusive_def split: if_splits)

lemma heap_le_guard_dtor: "WeakPtrGuard_dtor hp g = Inr hp' \<Longrightarrow> heap_le hp hp'"
  by (cases g)
     (auto simp: WeakPtrGuard_dtor_def bind_res_Inr_iff split: option.splits
           intro: heap_le_refl
           elim!: heap_le_trans[OF heap_le_deref_update[OF _ sharedUnlock_keeps]
                                   heap_le_sp_release])

lemma heap_le_factory_dtor: "WeakPtrFactory_dtor hp f = Inr hp' \<Longrightarrow> heap_le hp hp'"
  by (auto simp: WeakPtrFactory_dtor_def bind_res_Inr_iff
           elim!: heap_le_trans[OF heap_le_deref_update[OF _ invalidate_keeps]
                                   heap_le_sp_release])

lemma heap_le_lock: "lock hp w = Inr (g, hp') \<Longrightarrow> heap_le hp hp'"
  by (auto simp: lock_eq heap_le_refl heap_le_held split: option.splits if_splits)

lemma heap_le_step: "step (wd, hp) c = Inr (wd', hp') \<Longrightarrow> heap_le hp hp'"
proof (cases c)
  case (New_Factory obj)
  assume "step (wd, hp) c = Inr (wd', hp')"
  with New_Factory show ?thesis
    using heap_le_make_shared[of hp]
    by (auto simp: WeakPtrFactory_ctor_def split: prod.splits)
next
  case (Destroy_Factory f)
  assume "step (wd, hp) c = Inr (wd', hp')"
  with Destroy_Factory show ?thesis
    by (auto simp: bind_res_Inr_iff dest: heap_le_factory_dtor)
next
  case (Lock w)
  assume "step (wd, hp) c = Inr (wd', hp')"
  with Lock show ?thesis
    by (auto simp: bind_res_Inr_iff dest: heap_le_lock)
next
  case (Destroy_Guard g)
  assume "step (wd, hp) c = Inr (wd', hp')"
  with Destroy_Guard show ?thesis
    by (auto simp: bind_res_Inr_iff dest: heap_le_guard_dtor)
next
  case (Expired w)
  assume "step (wd, hp) c = Inr (wd', hp')"
  with Expired show ?thesis
    by (auto simp: expired_eq heap_le_refl)
next
  case (Operator_Bool w)
  assume "step (wd, hp) c = Inr (wd', hp')"
  with Operator_Bool show ?thesis
    by (auto simp: operator_bool_eq heap_le_refl)
next
  case (Object w)
  assume "step (wd, hp) c = Inr (wd', hp')"
  with Object show ?thesis
    by (auto simp: object_eq heap_le_refl)
next
  case (Operator_Arrow w)
  assume "step (wd, hp) c = Inr (wd', hp')"
  with Operator_Arrow show ?thesis
    by (auto simp: operator_arrow_def object_eq heap_le_refl split: option.splits if_splits)
next
  case (Call_Weak_Method cl ps)
  assume "step (wd, hp) c = Inr (wd', hp')"
  with Call_Weak_Method show ?thesis
    by (cases cl) (auto simp: call_weak_method_eq heap_le_refl split: if_splits)
qed

lemma heap_le_run: "run (wd, hp) cs = Inr (wd', hp') \<Longrightarrow> heap_le hp hp'"
proof (induction cs arbitrary: wd hp)
  case Nil
  then show ?case by (simp add: heap_le_refl)
next
  case (Cons c cs)
  then obtain wd1 hp1 where s: "step (wd, hp) c = Inr (wd1, hp1)"
    and r: "run (wd1, hp1) cs = Inr (wd', hp')"
    by (auto simp: bind_res_Inr_iff)
  from heap_le_step[OF s] Cons.IH[OF r] show ?case by (rule heap_le_trans)
qed

section \<open>The locking protocol under interleaving\<close>

lemma sum_update:
  fixes f :: "'a \<Rightarrow> nat"
  shows "i < length ts \<Longrightarrow>
     sum_list (map f (ts[i := t])) + f (ts ! i) = sum_list (map f ts) + f t"
proof (induction ts arbitrary: i)
  case Nil
  then show ?case by simp
next
  case (Cons x xs)
  then show ?case by (cases i) auto
qed

lemma sum_pos:
  fixes f :: "'a \<Rightarrow> nat"
  shows "t \<in> set ts \<Longrightarrow> 0 < f t \<Longrightarrow> 0 < sum_list (map f ts)"
  by (induction ts) auto

lemma deref_update_effect:
  assumes "deref_update hp (Some a) f = Inr hp'"
  shows "length hp' = length hp \<and> a < length hp \<and>
         (\<exists>d'. f (data (hp ! a)) = Inr d' \<and>
               (\<forall>b. hp' ! b = (if b = a then (hp ! a)\<lparr>data := d'\<rparr> else hp ! b)))"
  using assms
  by (auto simp: deref_update_def alive_def bind_res_Inr_iff split: if_splits)

lemma sp_release_effect:
  assumes "sp_release hp (Some a) = Inr hp'"
  shows "length hp' = length hp \<and> a < length hp \<and> (\<forall>b. data (hp' ! b) = data (hp ! b))"
  using assms
  by (auto simp: sp_release_def alive_def nth_list_update split: if_splits)

lemma weak_lock_effect:
  assumes "weak_lock hp w = (r, hp')"
  shows "length hp' = length hp \<and> (\<forall>b. data (hp' ! b) = data (hp ! b)) \<and>
         (\<forall>a. r = Some a \<longrightarrow> a < length hp)"
  using assms
  by (cases w) (auto simp: weak_lock_def alive_def nth_list_update split: if_splits)

lemmas step_effects = deref_update_effect sp_release_effect weak_lock_effect

lemmas mutex_defs =
  sharedLock_def sharedUnlock_def lock_shared_def unlock_shared_def lock_exclusive_def
  unlock_exclusive_def make_shared_def

lemma count_in: "a \<in> set xs \<Longrightarrow> 0 < count_list xs a"
  by (induction xs) auto

lemma step_readers:
  assumes "thread_step (hp, t) (hp', t')" and "b < length hp" and "pc t' \<noteq> Aborted"
  shows "mutex_readers (data (hp' ! b)) + shared_holds b t
           = mutex_readers (data (hp ! b)) + shared_holds b t'"
  using assms
  by (cases rule: thread_step.cases)
     (auto dest!: step_effects simp: mutex_defs shared_holds_def nth_append split: if_splits,
      drule count_in, simp)

lemma step_writer:
  assumes "thread_step (hp, t) (hp', t')" and "b < length hp" and "pc t' \<noteq> Aborted"
  shows "(if mutex_writer (data (hp' ! b)) then 1 else 0) + exclusive_holds b t
           = (if mutex_writer (data (hp ! b)) then 1 else 0) + exclusive_holds b t'"
  using assms
  by (cases rule: thread_step.cases)
     (auto dest!: step_effects simp: mutex_defs exclusive_holds_def nth_append split: if_splits)

lemma step_excludes:
  assumes "thread_step (hp, t) (hp', t')" and "b < length hp"
    and "mutex_writer (data (hp ! b)) \<longrightarrow> mutex_readers (data (hp ! b)) = 0"
  shows "mutex_writer (data (hp' ! b)) \<longrightarrow> mutex_readers (data (hp' ! b)) = 0"
  using assms
  by (cases rule: thread_step.cases)
     (auto dest!: step_effects simp: mutex_defs nth_append split: if_splits)

lemma step_flag:
  assumes "thread_step (hp, t) (hp', t')" and "b < length hp" and "valid_m (data (hp ! b))"
  shows "valid_m (data (hp' ! b)) \<or> pc t = Dtor_store b"
  using assms
  by (cases rule: thread_step.cases)
     (auto dest!: step_effects simp: mutex_defs nth_append split: if_splits)

lemma step_flag_cleared:
  assumes "thread_step (hp, t) (hp', t')" and "b < length hp" and "\<not> valid_m (data (hp ! b))"
  shows "\<not> valid_m (data (hp' ! b))"
  using assms
  by (cases rule: thread_step.cases)
     (auto dest!: step_effects simp: mutex_defs nth_append split: if_splits)

lemma step_saw_valid:
  assumes "thread_step (hp, t) (hp', t')" and "saw_valid b t'" and "b < length hp"
  shows "saw_valid b t \<or> valid_m (data (hp' ! b))"
  using assms
  by (cases rule: thread_step.cases)
     (auto dest!: step_effects dest: set_remove1_subset[THEN subsetD]
           simp: saw_valid_def deref_valid_def valid_def alive_def split: if_splits)

lemma step_thread_ok:
  assumes "thread_step (hp, t) (hp', t')" and "thread_ok hp t"
  shows "length hp \<le> length hp' \<and> (pc t' \<noteq> Aborted \<longrightarrow> thread_ok hp' t')"
  using assms
  by (cases rule: thread_step.cases)
     (auto dest!: step_effects dest: set_remove1_subset[THEN subsetD]
           simp: thread_ok_def linked_def make_shared_def)

lemma step_new_block:
  assumes "thread_step (hp, t) (hp', t')" and "length hp \<le> b" and "b < length hp'"
  shows "hp' ! b = \<lparr>use_count = 1, data = WeakPtrSharedData_ctor\<rparr> \<and> t' = t"
  using assms
  by (cases rule: thread_step.cases)
     (auto dest!: step_effects simp: make_shared_def nth_append)

lemma step_aborted:
  assumes "thread_step (hp, t) (hp', t')" and "pc t' = Aborted"
  shows "pc t = Aborted \<or> (\<exists>a. pc t = Lock_ctor a \<and> a < length hp \<and> \<not> valid_m (data (hp ! a)))"
  using assms
  by (cases rule: thread_step.cases)
     (auto simp: WeakPtrGuard_ctor_def deref_valid_def valid_def alive_def split: if_splits)


lemma saw_valid_holds: "saw_valid a t \<Longrightarrow> 0 < shared_holds a t"
  by (auto simp: saw_valid_def shared_holds_def dest: count_in)

lemma holds_in_heap:
  assumes "thread_ok hp t" and "length hp \<le> a"
  shows "shared_holds a t = 0" and "exclusive_holds a t = 0" and "\<not> saw_valid a t"
proof -
  from assms have g: "a \<notin> set (guards t)" and p: "pc_names (pc t) \<noteq> Some a"
    by (auto simp: thread_ok_def linked_def)
  from p have ps: "pc_shared a (pc t) = 0" and pe: "pc_exclusive a (pc t) = 0"
    and pl: "pc t \<noteq> Lock_ctor a"
    by (cases "pc t"; simp)+
  from g ps show "shared_holds a t = 0" by (simp add: shared_holds_def count_list_0_iff)
  from pe show "exclusive_holds a t = 0" by (simp add: exclusive_holds_def)
  from g pl show "\<not> saw_valid a t" by (simp add: saw_valid_def)
qed

lemma inv_new_thread:
  assumes "protocol_inv (hp, ts)"
  shows "protocol_inv (hp, ts @ [\<lparr>guards = [], pc = Idle\<rparr>])"
  using assms
  by (auto simp: protocol_inv_def thread_ok_def linked_def shared_holds_def
                 exclusive_holds_def saw_valid_def)

lemma inv_run_thread:
  assumes inv: "protocol_inv (hp, ts)"
    and i: "i < length ts"
    and st: "thread_step (hp, ts ! i) (hp', t')"
  shows "protocol_inv (hp', ts[i := t'])"
proof -
  from inv have ok: "\<And>t. t \<in> set ts \<Longrightarrow> thread_ok hp t"
    and rd: "\<And>a. a < length hp \<Longrightarrow>
               mutex_readers (data (hp ! a)) = sum_list (map (shared_holds a) ts)"
    and wr: "\<And>a. a < length hp \<Longrightarrow>
               sum_list (map (exclusive_holds a) ts)
                 = (if mutex_writer (data (hp ! a)) then 1 else 0)"
    and ex: "\<And>a. a < length hp \<Longrightarrow>
               mutex_writer (data (hp ! a)) \<longrightarrow> mutex_readers (data (hp ! a)) = 0"
    and sv: "\<And>a t. a < length hp \<Longrightarrow> t \<in> set ts \<Longrightarrow> saw_valid a t \<Longrightarrow>
               valid_m (data (hp ! a))"
    by (auto simp: protocol_inv_def)
  from i have ti: "ts ! i \<in> set ts" by simp
  from step_thread_ok[OF st ok[OF ti]] have len: "length hp \<le> length hp'"
    and ok': "pc t' \<noteq> Aborted \<Longrightarrow> thread_ok hp' t'"
    by simp_all
  have t': "pc t' \<noteq> Aborted"
  proof
    assume "pc t' = Aborted"
    from step_aborted[OF st this] ok[OF ti] obtain a where
      a: "pc (ts ! i) = Lock_ctor a" "a < length hp" "\<not> valid_m (data (hp ! a))"
      by (auto simp: thread_ok_def)
    from a(1) have "saw_valid a (ts ! i)" by (simp add: saw_valid_def)
    from sv[OF a(2) ti this] a(3) show False by simp
  qed
  have mem: "\<And>t. t \<in> set (ts[i := t']) \<Longrightarrow> t = t' \<or> t \<in> set ts"
    using set_update_subset_insert[of ts i t'] by auto
  have c1: "\<forall>t \<in> set (ts[i := t']). thread_ok hp' t"
  proof
    fix t assume "t \<in> set (ts[i := t'])"
    with mem have "t = t' \<or> t \<in> set ts" by blast
    then show "thread_ok hp' t"
    proof
      assume "t = t'"
      with ok'[OF t'] show ?thesis by simp
    next
      assume "t \<in> set ts"
      from ok[OF this] len show ?thesis
        by (cases "pc_names (pc t)") (auto simp: thread_ok_def linked_def)
    qed
  qed
  have c2: "mutex_readers (data (hp' ! a)) = sum_list (map (shared_holds a) (ts[i := t'])) \<and>
            sum_list (map (exclusive_holds a) (ts[i := t']))
              = (if mutex_writer (data (hp' ! a)) then 1 else 0) \<and>
            (mutex_writer (data (hp' ! a)) \<longrightarrow> mutex_readers (data (hp' ! a)) = 0) \<and>
            (\<forall>t \<in> set (ts[i := t']). saw_valid a t \<longrightarrow> valid_m (data (hp' ! a)))"
    if a': "a < length hp'" for a
  proof (cases "a < length hp")
    case True
    have r: "mutex_readers (data (hp' ! a)) = sum_list (map (shared_holds a) (ts[i := t']))"
      using step_readers[OF st True t'] sum_update[OF i, of "shared_holds a" t'] rd[OF True]
      by simp
    have w: "sum_list (map (exclusive_holds a) (ts[i := t']))
               = (if mutex_writer (data (hp' ! a)) then 1 else 0)"
      using step_writer[OF st True t'] sum_update[OF i, of "exclusive_holds a" t'] wr[OF True]
      by (simp split: if_splits)
    have e: "mutex_writer (data (hp' ! a)) \<longrightarrow> mutex_readers (data (hp' ! a)) = 0"
      using step_excludes[OF st True ex[OF True]] .
    have keep: "valid_m (data (hp' ! a))" if old: "t \<in> set ts" and s: "saw_valid a t" for t
    proof -
      from sv[OF True old s] step_flag[OF st True]
      have "valid_m (data (hp' ! a)) \<or> pc (ts ! i) = Dtor_store a" by simp
      moreover have "pc (ts ! i) \<noteq> Dtor_store a"
      proof
        assume d: "pc (ts ! i) = Dtor_store a"
        then have "0 < exclusive_holds a (ts ! i)" by (simp add: exclusive_holds_def)
        from sum_pos[where f = "exclusive_holds a", OF ti this] wr[OF True] have "mutex_writer (data (hp ! a))"
          by (simp split: if_splits)
        with ex[OF True] rd[OF True] have "sum_list (map (shared_holds a) ts) = 0" by simp
        with sum_pos[where f = "shared_holds a", OF old saw_valid_holds[OF s]] show False by simp
      qed
      ultimately show ?thesis by simp
    qed
    have v: "\<forall>t \<in> set (ts[i := t']). saw_valid a t \<longrightarrow> valid_m (data (hp' ! a))"
    proof (intro ballI impI)
      fix t assume t: "t \<in> set (ts[i := t'])" and s: "saw_valid a t"
      from mem[OF t] show "valid_m (data (hp' ! a))"
      proof
        assume "t = t'"
        with step_saw_valid[OF st _ True] s
        have "saw_valid a (ts ! i) \<or> valid_m (data (hp' ! a))" by simp
        with keep[OF ti] show ?thesis by blast
      next
        assume "t \<in> set ts"
        from keep[OF this s] show ?thesis .
      qed
    qed
    from r w e v show ?thesis by simp
  next
    case False
    with step_new_block[OF st _ a'] have new: "hp' ! a = \<lparr>use_count = 1, data = WeakPtrSharedData_ctor\<rparr>"
      and same: "t' = ts ! i"
      by simp_all
    from same have upd: "ts[i := t'] = ts" by simp
    from False holds_in_heap[OF ok, of _ a]
    have none: "\<And>t. t \<in> set ts \<Longrightarrow>
                  shared_holds a t = 0 \<and> exclusive_holds a t = 0 \<and> \<not> saw_valid a t"
      by simp
    then have "sum_list (map (shared_holds a) ts) = 0" "sum_list (map (exclusive_holds a) ts) = 0"
      by simp_all
    with none show ?thesis
      by (simp add: upd new WeakPtrSharedData_ctor_def)
  qed
  show ?thesis
    unfolding protocol_inv_def prod.case
  proof (rule conjI)
    show "\<forall>t \<in> set (ts[i := t']). thread_ok hp' t" by (rule c1)
  next
    show "\<forall>a<length hp'.
            mutex_readers (data (hp' ! a)) = sum_list (map (shared_holds a) (ts[i := t'])) \<and>
            sum_list (map (exclusive_holds a) (ts[i := t']))
              = (if mutex_writer (data (hp' ! a)) then 1 else 0) \<and>
            (mutex_writer (data (hp' ! a)) \<longrightarrow> mutex_readers (data (hp' ! a)) = 0) \<and>
            (\<forall>t \<in> set (ts[i := t']). saw_valid a t \<longrightarrow> valid_m (data (hp' ! a)))"
    proof (intro allI impI)
      fix a assume "a < length hp'"
      from c2[OF this]
      show "mutex_readers (data (hp' ! a)) = sum_list (map (shared_holds a) (ts[i := t'])) \<and>
            sum_list (map (exclusive_holds a) (ts[i := t']))
              = (if mutex_writer (data (hp' ! a)) then 1 else 0) \<and>
            (mutex_writer (data (hp' ! a)) \<longrightarrow> mutex_readers (data (hp' ! a)) = 0) \<and>
            (\<forall>t \<in> set (ts[i := t']). saw_valid a t \<longrightarrow> valid_m (data (hp' ! a)))" .
    qed
  qed
qed

lemma inv_sys_step: "protocol_inv s \<Longrightarrow> sys_step s s' \<Longrightarrow> protocol_inv s'"
  by (erule sys_step.cases) (auto intro: inv_new_thread inv_run_thread)

lemma reachable_inv: "reachable s \<Longrightarrow> protocol_inv s"
proof (induction rule: reachable.induct)
  case initial
  show ?case by (simp add: protocol_inv_def)
next
  case (later s s')
  then show ?case by (blast intro: inv_sys_step)
qed

lemma reachable_guard:
  assumes "reachable (hp, ts)" and "t \<in> set ts"
  shows "pc t \<noteq> Aborted"
    and "saw_valid a t \<Longrightarrow>
           a < length hp \<and> valid_m (data (hp ! a)) \<and> 0 < mutex_readers (data (hp ! a)) \<and>
           \<not> mutex_writer (data (hp ! a))"
proof -
  from reachable_inv[OF assms(1)] have inv: "protocol_inv (hp, ts)" .
  with assms(2) have ok: "thread_ok hp t" by (auto simp: protocol_inv_def)
  then show "pc t \<noteq> Aborted" by (simp add: thread_ok_def)
  assume s: "saw_valid a t"
  from ok s have a: "a < length hp" by (auto simp: thread_ok_def saw_valid_def linked_def)
  from inv a assms(2) s have v: "valid_m (data (hp ! a))"
    and r: "mutex_readers (data (hp ! a)) = sum_list (map (shared_holds a) ts)"
    and e: "mutex_writer (data (hp ! a)) \<longrightarrow> mutex_readers (data (hp ! a)) = 0"
    by (auto simp: protocol_inv_def)
  from sum_pos[where f = "shared_holds a", OF assms(2) saw_valid_holds[OF s]] r have "0 < mutex_readers (data (hp ! a))"
    by simp
  with a v e show "a < length hp \<and> valid_m (data (hp ! a)) \<and> 0 < mutex_readers (data (hp ! a)) \<and>
           \<not> mutex_writer (data (hp ! a))"
    by auto
qed


lemma step_length: "thread_step (hp, t) (hp', t') \<Longrightarrow> length hp \<le> length hp'"
  by (cases rule: thread_step.cases)
     (auto dest!: step_effects simp: make_shared_def)

lemma sys_step_cleared:
  assumes "sys_step (hp, ts) (hp', ts')" and "a < length hp" and "\<not> flag hp (Some a)"
  shows "a < length hp' \<and> \<not> flag hp' (Some a)"
  using assms
  by (cases rule: sys_step.cases)
     (auto simp: flag_def valid_def dest: step_flag_cleared step_length)

lemma sys_steps_cleared:
  assumes "rtranclp sys_step s s'" and "a < length (fst s)" and "\<not> flag (fst s) (Some a)"
  shows "a < length (fst s') \<and> \<not> flag (fst s') (Some a)"
  using assms
proof (induction rule: rtranclp_induct)
  case base
  then show ?case by simp
next
  case (step y z)
  then show ?case
    using sys_step_cleared[of "fst y" "snd y" "fst z" "snd z" a] by simp
qed

lemma guard_held_reachable:
  "reachable ([block 2 1 True], [\<lparr>guards = [0], pc = Idle\<rparr>])"
proof -
  have "reachable ([], [\<lparr>guards = [], pc = Idle\<rparr>])"
    using later[OF initial new_thread[of "[]" "[]"]] by simp
  moreover have "thread_step ([], \<lparr>guards = [], pc = Idle\<rparr>)
                   ([block 1 0 True], \<lparr>guards = [], pc = Idle\<rparr>)"
    using factory_ctor[of "\<lparr>guards = [], pc = Idle\<rparr>" "[]"] by (simp add: prim_defs)
  ultimately have "reachable ([block 1 0 True], [\<lparr>guards = [], pc = Idle\<rparr>])"
    using later[OF _ run_thread[of 0 "[\<lparr>guards = [], pc = Idle\<rparr>]"]] by fastforce
  moreover have "thread_step ([block 1 0 True], \<lparr>guards = [], pc = Idle\<rparr>)
                   ([block 2 0 True], \<lparr>guards = [], pc = Lock_sharedLock 0\<rparr>)"
    using lock_begin[of "\<lparr>guards = [], pc = Idle\<rparr>" "[block 1 0 True]" "Some 0" 0 "[block 2 0 True]"]
    by (simp add: prim_defs)
  ultimately have "reachable ([block 2 0 True], [\<lparr>guards = [], pc = Lock_sharedLock 0\<rparr>])"
    using later[OF _ run_thread[of 0 "[\<lparr>guards = [], pc = Idle\<rparr>]"]] by fastforce
  moreover have "thread_step ([block 2 0 True], \<lparr>guards = [], pc = Lock_sharedLock 0\<rparr>)
                   ([block 2 1 True], \<lparr>guards = [], pc = Lock_valid 0\<rparr>)"
    using lock_sharedLock[of "\<lparr>guards = [], pc = Lock_sharedLock 0\<rparr>" 0 "[block 2 0 True]"
                             "[block 2 1 True]"]
    by (simp add: prim_defs)
  ultimately have "reachable ([block 2 1 True], [\<lparr>guards = [], pc = Lock_valid 0\<rparr>])"
    using later[OF _ run_thread[of 0 "[\<lparr>guards = [], pc = Lock_sharedLock 0\<rparr>]"]] by fastforce
  moreover have "thread_step ([block 2 1 True], \<lparr>guards = [], pc = Lock_valid 0\<rparr>)
                   ([block 2 1 True], \<lparr>guards = [], pc = Lock_ctor 0\<rparr>)"
    using lock_valid[of "\<lparr>guards = [], pc = Lock_valid 0\<rparr>" 0 "[block 2 1 True]"]
    by (simp add: prim_defs)
  ultimately have "reachable ([block 2 1 True], [\<lparr>guards = [], pc = Lock_ctor 0\<rparr>])"
    using later[OF _ run_thread[of 0 "[\<lparr>guards = [], pc = Lock_valid 0\<rparr>]"]] by fastforce
  moreover have "thread_step ([block 2 1 True], \<lparr>guards = [], pc = Lock_ctor 0\<rparr>)
                   ([block 2 1 True], \<lparr>guards = [0], pc = Idle\<rparr>)"
    using lock_ctor[of "\<lparr>guards = [], pc = Lock_ctor 0\<rparr>" 0 "[block 2 1 True]" "WeakPtrGuard (Some 0)"]
    by (simp add: prim_defs WeakPtrGuard_ctor_def)
  ultimately show ?thesis
    using later[OF _ run_thread[of 0 "[\<lparr>guards = [], pc = Lock_ctor 0\<rparr>]"]] by fastforce
qed

section \<open>The claims\<close>

subsection \<open>\<^verbatim>\<open>expired\<close> and the boolean conversion\<close>

text \<open>
  C4. \<^verbatim>\<open>expired()\<close> returns true exactly when the linked Validity State no longer
  exists, or exists with a cleared liveness flag; it always returns and leaves the heap as
  it found it. The boolean conversion returns the negation of what \<^verbatim>\<open>expired()\<close>
  returns.
\<close>

theorem expired_iff_gone_or_invalid:
  "expired hp w = Inr (\<not> alive hp (weak_m w) \<or> \<not> flag hp (weak_m w), hp) \<and>
   (\<exists>e. expired hp w = Inr (e, hp) \<and> operator_bool hp w = Inr (\<not> e, hp))"
  by (simp add: expired_eq operator_bool_eq)

theorem expired_iff_gone_or_invalid_witness:
  "expired [block 1 0 True, block 1 0 False, block 0 0 True] \<lparr>weak_m = Some 0, ptr_m = Some (7::nat)\<rparr>
     = Inr (False, [block 1 0 True, block 1 0 False, block 0 0 True]) \<and>
   expired [block 1 0 True, block 1 0 False, block 0 0 True] \<lparr>weak_m = Some 1, ptr_m = Some (7::nat)\<rparr>
     = Inr (True, [block 1 0 True, block 1 0 False, block 0 0 True]) \<and>
   expired [block 1 0 True, block 1 0 False, block 0 0 True] \<lparr>weak_m = Some 2, ptr_m = Some (7::nat)\<rparr>
     = Inr (True, [block 1 0 True, block 1 0 False, block 0 0 True]) \<and>
   operator_bool [block 1 0 True, block 1 0 False, block 0 0 True] \<lparr>weak_m = Some 0, ptr_m = Some (7::nat)\<rparr>
     = Inr (True, [block 1 0 True, block 1 0 False, block 0 0 True])"
  using expired_iff_gone_or_invalid
          [of "[block 1 0 True, block 1 0 False, block 0 0 True]"
              "\<lparr>weak_m = Some 0, ptr_m = Some (7::nat)\<rparr>"]
        expired_iff_gone_or_invalid
          [of "[block 1 0 True, block 1 0 False, block 0 0 True]"
              "\<lparr>weak_m = Some 1, ptr_m = Some (7::nat)\<rparr>"]
        expired_iff_gone_or_invalid
          [of "[block 1 0 True, block 1 0 False, block 0 0 True]"
              "\<lparr>weak_m = Some 2, ptr_m = Some (7::nat)\<rparr>"]
  by (auto simp: prim_defs)

subsection \<open>\<^verbatim>\<open>lock\<close>\<close>

text \<open>
  C2. \<^verbatim>\<open>lock()\<close> returns an empty Guard and changes nothing when the linked Validity
  State no longer exists. When it exists, the shared lock is acquired (the call waits while
  the mutex is held exclusively); with the flag still true the Guard carries the hold: one
  more strong reference and one more shared holder of the mutex; with the flag cleared the
  shared lock is released again, the heap is as before and the Guard is empty.
\<close>

theorem lock_behaviour:
  "(\<not> alive hp (weak_m w) \<longrightarrow> lock hp w = Inr (WeakPtrGuard None, hp)) \<and>
   (alive hp (weak_m w) \<and> writer_held hp (weak_m w) \<longrightarrow> lock hp w = Inl Blocked) \<and>
   (weak_m w = Some a \<and> alive hp (Some a) \<and> \<not> writer_held hp (Some a) \<and> flag hp (Some a) \<longrightarrow>
      lock hp w = Inr (WeakPtrGuard (Some a), held a hp) \<and>
      length (held a hp) = length hp \<and>
      use_count (held a hp ! a) = Suc (use_count (hp ! a)) \<and>
      mutex_readers (data (held a hp ! a)) = Suc (mutex_readers (data (hp ! a))) \<and>
      (\<forall>b. b \<noteq> a \<longrightarrow> held a hp ! b = hp ! b)) \<and>
   (alive hp (weak_m w) \<and> \<not> writer_held hp (weak_m w) \<and> \<not> flag hp (weak_m w) \<longrightarrow>
      lock hp w = Inr (WeakPtrGuard None, hp))"
  by (cases "weak_m w")
     (auto simp: lock_eq alive_def held_props, simp add: held_def)

theorem lock_behaviour_witness:
  "lock [block 1 0 True, block 1 0 False, block 0 0 True] \<lparr>weak_m = Some 0, ptr_m = Some (7::nat)\<rparr>
     = Inr (WeakPtrGuard (Some 0), [block 2 1 True, block 1 0 False, block 0 0 True]) \<and>
   lock [block 1 0 True, block 1 0 False, block 0 0 True] \<lparr>weak_m = Some 1, ptr_m = Some (7::nat)\<rparr>
     = Inr (WeakPtrGuard None, [block 1 0 True, block 1 0 False, block 0 0 True]) \<and>
   lock [block 1 0 True, block 1 0 False, block 0 0 True] \<lparr>weak_m = Some 2, ptr_m = Some (7::nat)\<rparr>
     = Inr (WeakPtrGuard None, [block 1 0 True, block 1 0 False, block 0 0 True]) \<and>
   lock [\<lparr>use_count = 1, data = \<lparr>mutex_readers = 0, mutex_writer = True, valid_m = True\<rparr>\<rparr>]
        \<lparr>weak_m = Some 0, ptr_m = Some (7::nat)\<rparr>
     = Inl Blocked"
  using lock_behaviour
          [of "[block 1 0 True, block 1 0 False, block 0 0 True]"
              "\<lparr>weak_m = Some 0, ptr_m = Some (7::nat)\<rparr>" 0]
        lock_behaviour
          [of "[block 1 0 True, block 1 0 False, block 0 0 True]"
              "\<lparr>weak_m = Some 1, ptr_m = Some (7::nat)\<rparr>" 1]
        lock_behaviour
          [of "[block 1 0 True, block 1 0 False, block 0 0 True]"
              "\<lparr>weak_m = Some 2, ptr_m = Some (7::nat)\<rparr>" 2]
        lock_behaviour
          [of "[\<lparr>use_count = 1, data = \<lparr>mutex_readers = 0, mutex_writer = True, valid_m = True\<rparr>\<rparr>]"
              "\<lparr>weak_m = Some 0, ptr_m = Some (7::nat)\<rparr>" 0]
  by (simp add: prim_defs)

subsection \<open>Empty handles\<close>

lemma empty_link_calls:
  assumes "weak_m w = None"
  shows "expired hp w = Inr (True, hp)"
    and "operator_bool hp w = Inr (False, hp)"
    and "lock hp w = Inr (WeakPtrGuard None, hp)"
    and "object hp w = Inr (None, hp)"
    and "operator_arrow hp w = Inl Assertion_Failed"
  using assms
  by (simp_all add: expired_eq operator_bool_eq lock_eq object_eq operator_arrow_def alive_def)

text \<open>
  C10. A default-constructed \<^verbatim>\<open>WeakPtr\<close> and a moved-from \<^verbatim>\<open>WeakPtr\<close> (the source of
  the move constructor or of the converting move constructor) have an empty link. On a
  handle with an empty link, in every heap, \<^verbatim>\<open>expired()\<close> returns true, the boolean
  conversion false, \<^verbatim>\<open>lock()\<close> an empty Guard and \<^verbatim>\<open>object()\<close> null, each without
  error and without touching the heap; \<^verbatim>\<open>operator->\<close> fails its assertion.
\<close>

theorem empty_handle_behaviour:
  "weak_m (WeakPtr_default :: 'o WeakPtr) = None \<and>
   weak_m (snd (WeakPtr_move (v :: 'o WeakPtr))) = None \<and>
   weak_m (snd (WeakPtr_convert (up :: 'o \<Rightarrow> 'b) v)) = None \<and>
   (weak_m (w :: 'o WeakPtr) = None \<longrightarrow>
      expired hp w = Inr (True, hp) \<and>
      operator_bool hp w = Inr (False, hp) \<and>
      lock hp w = Inr (WeakPtrGuard None, hp) \<and>
      object hp w = Inr (None, hp) \<and>
      operator_arrow hp w = Inl Assertion_Failed)"
  by (simp add: empty_link_calls WeakPtr_default_def WeakPtr_move_def WeakPtr_convert_def)

theorem empty_handle_behaviour_witness:
  "expired [block 1 0 True] (WeakPtr_default :: nat WeakPtr) = Inr (True, [block 1 0 True]) \<and>
   operator_bool [block 1 0 True] (WeakPtr_default :: nat WeakPtr) = Inr (False, [block 1 0 True]) \<and>
   lock [block 1 0 True] (WeakPtr_default :: nat WeakPtr) = Inr (WeakPtrGuard None, [block 1 0 True]) \<and>
   object [block 1 0 True] (WeakPtr_default :: nat WeakPtr) = Inr (None, [block 1 0 True]) \<and>
   operator_arrow [block 1 0 True] (WeakPtr_default :: nat WeakPtr) = Inl Assertion_Failed \<and>
   snd (WeakPtr_move \<lparr>weak_m = Some 0, ptr_m = Some (7::nat)\<rparr>) = \<lparr>weak_m = None, ptr_m = Some 7\<rparr> \<and>
   expired [block 1 0 True] (snd (WeakPtr_move \<lparr>weak_m = Some 0, ptr_m = Some (7::nat)\<rparr>))
     = Inr (True, [block 1 0 True]) \<and>
   operator_bool [block 1 0 True] (snd (WeakPtr_move \<lparr>weak_m = Some 0, ptr_m = Some (7::nat)\<rparr>))
     = Inr (False, [block 1 0 True]) \<and>
   lock [block 1 0 True] (snd (WeakPtr_move \<lparr>weak_m = Some 0, ptr_m = Some (7::nat)\<rparr>))
     = Inr (WeakPtrGuard None, [block 1 0 True]) \<and>
   object [block 1 0 True] (snd (WeakPtr_move \<lparr>weak_m = Some 0, ptr_m = Some (7::nat)\<rparr>))
     = Inr (None, [block 1 0 True]) \<and>
   operator_arrow [block 1 0 True] (snd (WeakPtr_move \<lparr>weak_m = Some 0, ptr_m = Some (7::nat)\<rparr>))
     = Inl Assertion_Failed"
  using empty_handle_behaviour
          [of "\<lparr>weak_m = Some 0, ptr_m = Some (7::nat)\<rparr>" int
              "WeakPtr_default :: nat WeakPtr" "[block 1 0 True]"]
        empty_handle_behaviour
          [of "\<lparr>weak_m = Some 0, ptr_m = Some (7::nat)\<rparr>" int
              "snd (WeakPtr_move \<lparr>weak_m = Some 0, ptr_m = Some (7::nat)\<rparr>)" "[block 1 0 True]"]
  by (simp add: WeakPtr_default_def WeakPtr_move_def)

subsection \<open>The stored pointer\<close>

text \<open>
  C6, as the claim states it, fails: the public default constructor stores a null pointer.
\<close>

theorem default_pointer_null_counterexample:
  "ptr_m (WeakPtr_default :: nat WeakPtr) = None"
  by (simp add: WeakPtr_default_def)

text \<open>
  C6, amended. A \<^verbatim>\<open>WeakPtr\<close> that a factory creates stores the factory's object pointer,
  which is not null (the private constructor asserts it). A copy, a move and a covariant
  conversion of a handle store a non-null pointer exactly when their source does. A
  default-constructed \<^verbatim>\<open>WeakPtr\<close> stores the null pointer.
\<close>

theorem stored_pointer_nonnull:
  "(makeWeakPtr f = Inr w \<longrightarrow> ptr_m w = obj_m f \<and> ptr_m w \<noteq> None) \<and>
   (ptr_m (WeakPtr_copy v) \<noteq> None \<longleftrightarrow> ptr_m v \<noteq> None) \<and>
   (ptr_m (fst (WeakPtr_move v)) \<noteq> None \<longleftrightarrow> ptr_m v \<noteq> None) \<and>
   (ptr_m (fst (WeakPtr_convert up v)) \<noteq> None \<longleftrightarrow> ptr_m v \<noteq> None) \<and>
   ptr_m (WeakPtr_default :: 'o WeakPtr) = None"
  by (auto simp: makeWeakPtr_def WeakPtr_ctor_def WeakPtr_copy_def WeakPtr_move_def
                 WeakPtr_convert_def WeakPtr_default_def split: if_splits)

theorem stored_pointer_nonnull_witness:
  "makeWeakPtr \<lparr>strong_m = Some 0, obj_m = Some (7::nat)\<rparr> = Inr \<lparr>weak_m = Some 0, ptr_m = Some 7\<rparr> \<and>
   ptr_m \<lparr>weak_m = Some 0, ptr_m = Some (7::nat)\<rparr> \<noteq> None \<and>
   ptr_m (WeakPtr_copy \<lparr>weak_m = Some 0, ptr_m = Some (7::nat)\<rparr>) \<noteq> None \<and>
   ptr_m (fst (WeakPtr_move \<lparr>weak_m = Some 0, ptr_m = Some (7::nat)\<rparr>)) \<noteq> None \<and>
   ptr_m (fst (WeakPtr_convert int \<lparr>weak_m = Some 0, ptr_m = Some (7::nat)\<rparr>)) \<noteq> None \<and>
   makeWeakPtr \<lparr>strong_m = Some 0, obj_m = (None :: nat option)\<rparr> = Inl Assertion_Failed"
proof -
  have mk: "makeWeakPtr \<lparr>strong_m = Some 0, obj_m = Some (7::nat)\<rparr>
              = Inr \<lparr>weak_m = Some 0, ptr_m = Some 7\<rparr>"
    by (simp add: makeWeakPtr_def WeakPtr_ctor_def)
  have nn: "ptr_m \<lparr>weak_m = Some 0, ptr_m = Some (7::nat)\<rparr> \<noteq> None"
    by simp
  have ab: "makeWeakPtr \<lparr>strong_m = Some 0, obj_m = (None :: nat option)\<rparr> = Inl Assertion_Failed"
    by (simp add: makeWeakPtr_def WeakPtr_ctor_def)
  from stored_pointer_nonnull
         [of "\<lparr>strong_m = Some 0, obj_m = Some (7::nat)\<rparr>"
             "\<lparr>weak_m = Some 0, ptr_m = Some (7::nat)\<rparr>"
             "\<lparr>weak_m = Some 0, ptr_m = Some (7::nat)\<rparr>" int]
       mk nn ab
  show ?thesis by (simp add: WeakPtr_copy_def WeakPtr_move_def WeakPtr_convert_def)
qed

subsection \<open>Covariant conversion\<close>

text \<open>
  C5, as the claim states it, fails: the converting constructor moves the link out of the
  original. With a live factory at block 0, the handle it made and the result of converting
  that handle, the original left behind reports expired while the converted handle does not.
\<close>

theorem convert_original_expired_counterexample:
  "WeakPtrFactory_ctor [] (Some (7::nat)) = (\<lparr>strong_m = Some 0, obj_m = Some 7\<rparr>, [block 1 0 True]) \<and>
   makeWeakPtr \<lparr>strong_m = Some 0, obj_m = Some (7::nat)\<rparr> = Inr \<lparr>weak_m = Some 0, ptr_m = Some 7\<rparr> \<and>
   expired [block 1 0 True] (snd (WeakPtr_convert int \<lparr>weak_m = Some 0, ptr_m = Some (7::nat)\<rparr>))
     = Inr (True, [block 1 0 True]) \<and>
   expired [block 1 0 True] (fst (WeakPtr_convert int \<lparr>weak_m = Some 0, ptr_m = Some (7::nat)\<rparr>))
     = Inr (False, [block 1 0 True])"
  by (simp add: call_defs prim_defs expired_eq)

text \<open>
  C5, amended. The conversion moves the link and upcasts the stored pointer: the converted
  handle has the link the original had before the conversion, so in every heap its
  \<^verbatim>\<open>expired()\<close>, \<^verbatim>\<open>lock()\<close> and boolean conversion return what those of the original
  before the conversion, and of any copy of it, return; the original is left with an empty
  link and reports expired.
\<close>

theorem convert_shares_state:
  "weak_m (fst (WeakPtr_convert up v)) = weak_m v \<and>
   ptr_m (fst (WeakPtr_convert up v)) = map_option up (ptr_m v) \<and>
   expired hp (fst (WeakPtr_convert up v)) = expired hp v \<and>
   expired hp (fst (WeakPtr_convert up v)) = expired hp (WeakPtr_copy v) \<and>
   operator_bool hp (fst (WeakPtr_convert up v)) = operator_bool hp v \<and>
   lock hp (fst (WeakPtr_convert up v)) = lock hp v \<and>
   weak_m (snd (WeakPtr_convert up v)) = None \<and>
   expired hp (snd (WeakPtr_convert up v)) = Inr (True, hp)"
  by (simp add: WeakPtr_convert_def WeakPtr_copy_def expired_eq operator_bool_eq lock_eq alive_def)

subsection \<open>The liveness flag never comes back\<close>

lemma sd_step_flag:
  assumes "sd_step d c = Inr d'"
  shows "valid d' = valid d \<or> (c = Invalidate \<and> valid d \<and> \<not> valid d')"
  using assms
  by (cases c)
     (auto simp: valid_def sharedLock_def sharedUnlock_def lock_shared_def unlock_shared_def
                 invalidate_def lock_exclusive_def unlock_exclusive_def split: if_splits)

lemma sd_run_invalid: "sd_run d cs = Inr d' \<Longrightarrow> \<not> valid d \<Longrightarrow> \<not> valid d'"
proof (induction cs arbitrary: d)
  case Nil
  then show ?case by simp
next
  case (Cons c cs)
  then obtain d1 where s: "sd_step d c = Inr d1" and r: "sd_run d1 cs = Inr d'"
    by (auto simp: bind_res_Inr_iff)
  from sd_step_flag[OF s] Cons.prems(2) have "\<not> valid d1" by auto
  with Cons.IH[OF r] show ?case .
qed

lemma sd_trace_head: "\<exists>ds. sd_trace d cs = d # ds"
  by (cases cs) simp_all

lemma sd_trace_invalid:
  "\<not> valid d \<Longrightarrow> falls (map valid (sd_trace d cs)) = 0 \<and> rises (map valid (sd_trace d cs)) = 0"
proof (induction cs arbitrary: d)
  case Nil
  then show ?case by simp
next
  case (Cons c cs)
  show ?case
  proof (cases "sd_step d c")
    case (Inl e)
    then show ?thesis by simp
  next
    case (Inr d1)
    from sd_step_flag[OF Inr] Cons.prems have nv: "\<not> valid d1" by auto
    obtain ds where ds: "sd_trace d1 cs = d1 # ds" using sd_trace_head by blast
    from Cons.IH[OF nv] Cons.prems nv show ?thesis by (simp add: Inr ds)
  qed
qed

lemma sd_trace_monotone:
  "rises (map valid (sd_trace d cs)) = 0 \<and> falls (map valid (sd_trace d cs)) \<le> 1"
proof (induction cs arbitrary: d)
  case Nil
  show ?case by simp
next
  case (Cons c cs)
  show ?case
  proof (cases "sd_step d c")
    case (Inl e)
    then show ?thesis by simp
  next
    case (Inr d1)
    obtain ds where ds: "sd_trace d1 cs = d1 # ds" using sd_trace_head by blast
    show ?thesis
    proof (cases "valid d1")
      case True
      with sd_step_flag[OF Inr] have "valid d" by auto
      with True Cons.IH[of d1] show ?thesis by (simp add: Inr ds)
    next
      case False
      from sd_trace_invalid[OF False, of cs] False show ?thesis by (simp add: Inr ds)
    qed
  qed
qed

lemma run_flag_cleared:
  assumes "run (wd, hp) ks = Inr (wd', hp')" and "a < length hp" and "\<not> flag hp (Some a)"
  shows "a < length hp' \<and> \<not> flag hp' (Some a)"
  using heap_le_run[OF assms(1)] assms(2,3) by (auto simp: heap_le_def)

text \<open>
  C3. The liveness flag is true in a freshly constructed Validity State. A call of
  \<^verbatim>\<open>sharedLock\<close>, \<^verbatim>\<open>sharedUnlock\<close>, \<^verbatim>\<open>invalidate\<close> or \<^verbatim>\<open>valid\<close> that returns
  leaves the flag as it was, except \<^verbatim>\<open>invalidate\<close>, which takes it from true to false;
  so a cleared flag stays cleared after any sequence of these calls, and along the states
  any sequence of calls goes through the flag never rises and falls at most once. The same
  holds for every control block of the heap under any sequence of calls of the library,
  and under every action of every thread when the calls interleave.
\<close>

theorem liveness_flag_monotone:
  "valid WeakPtrSharedData_ctor \<and>
   (sd_step d c = Inr d' \<longrightarrow>
      valid d' = valid d \<or> (c = Invalidate \<and> valid d \<and> \<not> valid d')) \<and>
   (sd_run d cs = Inr d'' \<and> \<not> valid d \<longrightarrow> \<not> valid d'') \<and>
   rises (map valid (sd_trace d cs)) = 0 \<and>
   falls (map valid (sd_trace d cs)) \<le> 1 \<and>
   (run (wd, hp) ks = Inr (wd', hp') \<and> a < length hp \<and> \<not> flag hp (Some a) \<longrightarrow>
      \<not> flag hp' (Some a)) \<and>
   (sys_step (hps, ts) (hps', ts') \<and> b < length hps \<and> \<not> flag hps (Some b) \<longrightarrow>
      \<not> flag hps' (Some b))"
proof (intro conjI impI)
  show "valid WeakPtrSharedData_ctor"
    by (simp add: valid_def WeakPtrSharedData_ctor_def)
next
  assume "sd_step d c = Inr d'"
  then show "valid d' = valid d \<or> (c = Invalidate \<and> valid d \<and> \<not> valid d')"
    by (rule sd_step_flag)
next
  assume "sd_run d cs = Inr d'' \<and> \<not> valid d"
  then show "\<not> valid d''"
    using sd_run_invalid[of d cs d''] by simp
next
  show "rises (map valid (sd_trace d cs)) = 0"
    using sd_trace_monotone[of d cs] by simp
next
  show "falls (map valid (sd_trace d cs)) \<le> 1"
    using sd_trace_monotone[of d cs] by simp
next
  assume "run (wd, hp) ks = Inr (wd', hp') \<and> a < length hp \<and> \<not> flag hp (Some a)"
  then show "\<not> flag hp' (Some a)"
    using run_flag_cleared[of wd hp ks wd' hp' a] by simp
next
  assume "sys_step (hps, ts) (hps', ts') \<and> b < length hps \<and> \<not> flag hps (Some b)"
  then show "\<not> flag hps' (Some b)"
    using sys_step_cleared[of hps ts hps' ts' b] by simp
qed

theorem liveness_flag_monotone_witness:
  "sd_step WeakPtrSharedData_ctor Invalidate
     = Inr \<lparr>mutex_readers = 0, mutex_writer = False, valid_m = False\<rparr> \<and>
   sd_run \<lparr>mutex_readers = 0, mutex_writer = False, valid_m = False\<rparr>
          [SharedLock, Valid, SharedUnlock, Invalidate, SharedLock]
     = Inr \<lparr>mutex_readers = 1, mutex_writer = False, valid_m = False\<rparr> \<and>
   map valid (sd_trace WeakPtrSharedData_ctor [SharedLock, Valid, SharedUnlock, Invalidate, SharedLock])
     = [True, True, True, True, False, False] \<and>
   falls (map valid (sd_trace WeakPtrSharedData_ctor
                       [SharedLock, Valid, SharedUnlock, Invalidate, SharedLock])) = 1 \<and>
   run (0::nat, [block 0 0 False])
       [New_Factory (Some (7::nat)), Lock \<lparr>weak_m = Some 1, ptr_m = Some 7\<rparr>,
        Expired \<lparr>weak_m = Some 0, ptr_m = Some 7\<rparr>,
        Call_Weak_Method (\<lparr>weak_m = Some 1, ptr_m = Some 7\<rparr>, \<lambda>obj (p::nat) wd. wd + p) 5]
     = Inr (5, [block 0 0 False, block 2 1 True]) \<and>
   \<not> flag [block 0 0 False, block 2 1 True] (Some 0) \<and>
   sys_step ([block 2 0 False], [\<lparr>guards = [], pc = Query_release 0\<rparr>])
            ([block 1 0 False], [\<lparr>guards = [], pc = Idle\<rparr>]) \<and>
   \<not> flag [block 1 0 False] (Some 0)"
proof -
  have s: "sd_step WeakPtrSharedData_ctor Invalidate
             = Inr \<lparr>mutex_readers = 0, mutex_writer = False, valid_m = False\<rparr>"
    by (simp add: prim_defs)
  have r: "sd_run \<lparr>mutex_readers = 0, mutex_writer = False, valid_m = False\<rparr>
                  [SharedLock, Valid, SharedUnlock, Invalidate, SharedLock]
             = Inr \<lparr>mutex_readers = 1, mutex_writer = False, valid_m = False\<rparr>"
    by (simp add: prim_defs)
  have t: "map valid (sd_trace WeakPtrSharedData_ctor
                        [SharedLock, Valid, SharedUnlock, Invalidate, SharedLock])
             = [True, True, True, True, False, False]"
    by (simp add: prim_defs)
  have h: "run (0::nat, [block 0 0 False])
             [New_Factory (Some (7::nat)), Lock \<lparr>weak_m = Some 1, ptr_m = Some 7\<rparr>,
              Expired \<lparr>weak_m = Some 0, ptr_m = Some 7\<rparr>,
              Call_Weak_Method (\<lparr>weak_m = Some 1, ptr_m = Some 7\<rparr>, \<lambda>obj (p::nat) wd. wd + p) 5]
             = Inr (5, [block 0 0 False, block 2 1 True])"
    by (simp add: call_weak_method_eq lock_eq expired_eq prim_defs call_defs)
  have f: "\<not> flag [block 0 0 False] (Some 0)"
    by (simp add: prim_defs)
  have "thread_step ([block 2 0 False], \<lparr>guards = [], pc = Query_release 0\<rparr>)
          ([block 1 0 False], \<lparr>guards = [], pc = Idle\<rparr>)"
    using query_release[of "\<lparr>guards = [], pc = Query_release 0\<rparr>" 0 "[block 2 0 False]"
                           "[block 1 0 False]"]
    by (simp add: prim_defs)
  then have y: "sys_step ([block 2 0 False], [\<lparr>guards = [], pc = Query_release 0\<rparr>])
                  ([block 1 0 False], [\<lparr>guards = [], pc = Idle\<rparr>])"
    using run_thread[of 0 "[\<lparr>guards = [], pc = Query_release 0\<rparr>]" "[block 2 0 False]"
                        "[block 1 0 False]" "\<lparr>guards = [], pc = Idle\<rparr>"]
    by simp
  have f2: "\<not> flag [block 2 0 False] (Some 0)"
    by (simp add: prim_defs)
  from liveness_flag_monotone
         [where d = WeakPtrSharedData_ctor and c = Invalidate
            and d' = "\<lparr>mutex_readers = 0, mutex_writer = False, valid_m = False\<rparr>"
            and cs = "[SharedLock, Valid, SharedUnlock, Invalidate, SharedLock]"
            and d'' = "\<lparr>mutex_readers = 1, mutex_writer = False, valid_m = False\<rparr>"
            and wd = "0::nat" and hp = "[block 0 0 False]"
            and ks = "[New_Factory (Some (7::nat)), Lock \<lparr>weak_m = Some 1, ptr_m = Some 7\<rparr>,
                       Expired \<lparr>weak_m = Some 0, ptr_m = Some 7\<rparr>,
                       Call_Weak_Method (\<lparr>weak_m = Some 1, ptr_m = Some 7\<rparr>,
                                         \<lambda>obj (p::nat) wd. wd + p) 5]"
            and wd' = 5 and hp' = "[block 0 0 False, block 2 1 True]" and a = 0
            and hps = "[block 2 0 False]" and ts = "[\<lparr>guards = [], pc = Query_release 0\<rparr>]"
            and hps' = "[block 1 0 False]" and ts' = "[\<lparr>guards = [], pc = Idle\<rparr>]"
            and b = 0]
       s r t h f y f2
  show ?thesis by simp
qed

subsection \<open>Guards produced by \<^verbatim>\<open>lock\<close>\<close>

lemma lock_result:
  assumes "lock hp w = Inr (g, hp')"
  shows "(g = WeakPtrGuard None \<and> hp' = hp) \<or>
         (\<exists>a. weak_m w = Some a \<and> g = WeakPtrGuard (Some a) \<and> hp' = held a hp \<and>
              alive hp (Some a) \<and> flag hp (Some a) \<and> \<not> writer_held hp (Some a))"
  using assms by (cases "weak_m w") (auto simp: lock_eq split: if_splits)

lemma lock_never_fails_assertion: "lock hp w \<noteq> Inl Assertion_Failed"
  by (cases "weak_m w") (auto simp: lock_eq)

lemma invalidate_blocked_on_held:
  assumes "a < length hp"
  shows "deref_update (held a hp) (Some a) invalidate = Inl Blocked"
  using assms
  by (simp add: deref_update_def held_def alive_def invalidate_def lock_exclusive_def)

text \<open>
  C9. \<^verbatim>\<open>lock()\<close> never fails the assertion of the Guard constructor. When the Guard it
  returns is not empty, the handle is linked to the Guard's Validity State, that state
  existed and its flag was true when \<^verbatim>\<open>lock()\<close> was called, the flag is true in the heap
  \<^verbatim>\<open>lock()\<close> returns, and the Guard holds the read-lock: the mutex has one more shared
  holder and the state one more strong reference than before, the Guard constructor's
  assertion holds in the returned heap, and the factory's destructor cannot return while
  the Guard is held. The same holds when threads interleave the actions of their calls: no
  thread ever fails the assertion, and whenever a thread is about to construct a non-empty
  Guard, or holds one, the flag of its Validity State is true and its mutex is held shared
  and not exclusively.
\<close>

theorem lock_guard_invariant:
  "lock hp w \<noteq> Inl Assertion_Failed \<and>
   (lock hp w = Inr (g, hp') \<and> guard_strong_m g = Some a \<longrightarrow>
      weak_m w = Some a \<and> alive hp (Some a) \<and> flag hp (Some a) \<and>
      alive hp' (Some a) \<and> flag hp' (Some a) \<and>
      mutex_readers (data (hp' ! a)) = Suc (mutex_readers (data (hp ! a))) \<and>
      use_count (hp' ! a) = Suc (use_count (hp ! a)) \<and>
      WeakPtrGuard_ctor hp' (guard_strong_m g) = Inr g \<and>
      WeakPtrFactory_dtor hp' \<lparr>strong_m = Some a, obj_m = ptr_m w\<rparr> = Inl Blocked) \<and>
   (reachable (hps, ts) \<and> t \<in> set ts \<longrightarrow>
      pc t \<noteq> Aborted \<and>
      (pc t = Lock_ctor b \<or> b \<in> set (guards t) \<longrightarrow>
         b < length hps \<and> flag hps (Some b) \<and> 0 < mutex_readers (data (hps ! b)) \<and>
         \<not> writer_held hps (Some b)))"
proof (intro conjI impI)
  show "lock hp w \<noteq> Inl Assertion_Failed" by (rule lock_never_fails_assertion)
next
  assume h: "lock hp w = Inr (g, hp') \<and> guard_strong_m g = Some a"
  with lock_result[of hp w g hp']
  have w: "weak_m w = Some a" and g: "g = WeakPtrGuard (Some a)" and hp': "hp' = held a hp"
    and al: "alive hp (Some a)" and fl: "flag hp (Some a)"
    by auto
  from al have a: "a < length hp" by (simp add: alive_def)
  show "weak_m w = Some a" by (rule w)
  show "alive hp (Some a)" by (rule al)
  show "flag hp (Some a)" by (rule fl)
  show "alive hp' (Some a)" using a by (simp add: hp' held_props)
  show "flag hp' (Some a)" using a fl by (simp add: hp' held_props)
  show "mutex_readers (data (hp' ! a)) = Suc (mutex_readers (data (hp ! a)))"
    using a by (simp add: hp' held_props)
  show "use_count (hp' ! a) = Suc (use_count (hp ! a))"
    using a by (simp add: hp' held_props)
  show "WeakPtrGuard_ctor hp' (guard_strong_m g) = Inr g"
    using a fl held_props(2,3)[OF a]
    by (simp add: hp' g WeakPtrGuard_ctor_def deref_valid_def flag_def)
  show "WeakPtrFactory_dtor hp' \<lparr>strong_m = Some a, obj_m = ptr_m w\<rparr> = Inl Blocked"
    using invalidate_blocked_on_held[OF a] by (simp add: hp' WeakPtrFactory_dtor_def)
next
  assume "reachable (hps, ts) \<and> t \<in> set ts"
  then show "pc t \<noteq> Aborted" using reachable_guard(1)[of hps ts t] by simp
next
  assume r: "reachable (hps, ts) \<and> t \<in> set ts" and p: "pc t = Lock_ctor b \<or> b \<in> set (guards t)"
  from p have "saw_valid b t" by (auto simp: saw_valid_def)
  with r reachable_guard(2)[of hps ts t b]
  have "b < length hps \<and> valid_m (data (hps ! b)) \<and> 0 < mutex_readers (data (hps ! b)) \<and>
        \<not> mutex_writer (data (hps ! b))"
    by simp
  then show "b < length hps" and "flag hps (Some b)" and "0 < mutex_readers (data (hps ! b))"
    and "\<not> writer_held hps (Some b)"
    by (simp_all add: flag_def valid_def writer_held_def)
qed

theorem lock_guard_invariant_witness:
  "lock [block 1 0 True] \<lparr>weak_m = Some 0, ptr_m = Some (7::nat)\<rparr>
     = Inr (WeakPtrGuard (Some 0), [block 2 1 True]) \<and>
   guard_strong_m (WeakPtrGuard (Some 0)) = Some 0 \<and>
   flag [block 1 0 True] (Some 0) \<and>
   flag [block 2 1 True] (Some 0) \<and>
   WeakPtrGuard_ctor [block 2 1 True] (Some 0) = Inr (WeakPtrGuard (Some 0)) \<and>
   WeakPtrFactory_dtor [block 2 1 True] \<lparr>strong_m = Some 0, obj_m = Some (7::nat)\<rparr> = Inl Blocked \<and>
   reachable ([block 2 1 True], [\<lparr>guards = [0], pc = Idle\<rparr>]) \<and>
   \<lparr>guards = [0], pc = Idle\<rparr> \<in> set [\<lparr>guards = [0], pc = Idle\<rparr>] \<and>
   0 \<in> set (guards \<lparr>guards = [0], pc = Idle\<rparr>) \<and>
   0 < mutex_readers (data ([block 2 1 True] ! 0)) \<and>
   \<not> writer_held [block 2 1 True] (Some 0)"
proof -
  have l: "lock [block 1 0 True] \<lparr>weak_m = Some 0, ptr_m = Some (7::nat)\<rparr>
             = Inr (WeakPtrGuard (Some 0), [block 2 1 True])"
    by (simp add: lock_eq prim_defs)
  have g: "guard_strong_m (WeakPtrGuard (Some 0)) = Some 0"
    by simp
  have m: "\<lparr>guards = [0], pc = Idle\<rparr> \<in> set [\<lparr>guards = [0], pc = Idle\<rparr>]"
    by simp
  from lock_guard_invariant
         [where hp = "[block 1 0 True]" and w = "\<lparr>weak_m = Some 0, ptr_m = Some (7::nat)\<rparr>"
            and g = "WeakPtrGuard (Some 0)" and hp' = "[block 2 1 True]" and a = 0
            and hps = "[block 2 1 True]" and ts = "[\<lparr>guards = [0], pc = Idle\<rparr>]"
            and t = "\<lparr>guards = [0], pc = Idle\<rparr>" and b = 0]
       l g m guard_held_reachable
  show ?thesis by simp
qed

subsection \<open>After the factory is destroyed\<close>

lemma factory_dtor_post:
  assumes "WeakPtrFactory_dtor hp f = Inr hp1"
  shows "\<exists>a. strong_m f = Some a \<and> a < length hp1 \<and> \<not> flag hp1 (Some a) \<and>
             \<not> writer_held hp1 (Some a)"
proof (cases "strong_m f")
  case None
  with assms show ?thesis by (simp add: WeakPtrFactory_dtor_def deref_update_def)
next
  case (Some a)
  with assms show ?thesis
    by (auto simp: WeakPtrFactory_dtor_def deref_update_def sp_release_def alive_def
                   invalidate_def lock_exclusive_def unlock_exclusive_def flag_def valid_def
                   writer_held_def bind_res_Inr_iff
             split: if_splits)
qed

lemma after_destruction:
  assumes "WeakPtrFactory_dtor hp f = Inr hp1" and "run (wd, hp1) ks = Inr (wd', hp2)"
  shows "\<exists>a. strong_m f = Some a \<and> a < length hp2 \<and> \<not> flag hp2 (Some a) \<and>
             \<not> writer_held hp2 (Some a)"
proof -
  from factory_dtor_post[OF assms(1)] obtain a where a: "strong_m f = Some a"
    "a < length hp1" "\<not> flag hp1 (Some a)" "\<not> writer_held hp1 (Some a)"
    by blast
  from heap_le_run[OF assms(2)] a(2,3,4)
  have "a < length hp2 \<and> \<not> flag hp2 (Some a) \<and> \<not> writer_held hp2 (Some a)"
    by (auto simp: heap_le_def)
  with a(1) show ?thesis by blast
qed

lemma invalid_link_calls:
  assumes "weak_m w = Some a" and "\<not> flag hp (Some a)" and "\<not> writer_held hp (Some a)"
  shows "expired hp w = Inr (True, hp)"
    and "operator_bool hp w = Inr (False, hp)"
    and "lock hp w = Inr (WeakPtrGuard None, hp)"
    and "object hp w = Inr (None, hp)"
    and "call_weak_method (w, m) ps (wd, hp) = Inr (wd, hp)"
  using assms
  by (simp_all add: expired_eq operator_bool_eq lock_eq object_eq call_weak_method_eq)

text \<open>
  C1. Once the destructor of a factory has returned, then after any sequence of calls of
  the library that returns, every handle derived from the factory reports expired, its
  boolean conversion is false, its \<^verbatim>\<open>lock()\<close> returns an empty Guard and its
  \<^verbatim>\<open>object()\<close> returns null, each without waiting and without changing the heap. The
  handles derived from a factory include those \<^verbatim>\<open>makeWeakPtr\<close> returns, before or after
  the destruction, and their copies, moves and conversions. The same answers are given in
  every state that interleaved actions of any threads lead to from the heap the destructor
  left, where \<^verbatim>\<open>lock()\<close> may wait, but returns nothing else than an empty Guard.
\<close>

theorem destroyed_factory_handles_expired:
  assumes "WeakPtrFactory_dtor hp f = Inr hp1"
    and "run (wd, hp1) ks = Inr (wd', hp2)"
    and "derived_from f w"
  shows "expired hp2 w = Inr (True, hp2) \<and>
         operator_bool hp2 w = Inr (False, hp2) \<and>
         lock hp2 w = Inr (WeakPtrGuard None, hp2) \<and>
         object hp2 w = Inr (None, hp2) \<and>
         (makeWeakPtr f = Inr v \<longrightarrow> derived_from f v) \<and>
         (derived_from f w \<longrightarrow>
            derived_from f (WeakPtr_copy w) \<and> derived_from f (fst (WeakPtr_move w)) \<and>
            derived_from f (fst (WeakPtr_convert up w))) \<and>
         (rtranclp sys_step (hp1, ts) (hpx, tsx) \<longrightarrow>
            expired hpx w = Inr (True, hpx) \<and>
            operator_bool hpx w = Inr (False, hpx) \<and>
            object hpx w = Inr (None, hpx) \<and>
            (lock hpx w = Inl Blocked \<or> lock hpx w = Inr (WeakPtrGuard None, hpx)))"
proof -
  from after_destruction[OF assms(1,2)] obtain a where a: "strong_m f = Some a"
    "\<not> flag hp2 (Some a)" "\<not> writer_held hp2 (Some a)"
    by blast
  from assms(3) a(1) have w: "weak_m w = Some a" by (simp add: derived_from_def)
  have "makeWeakPtr f = Inr v \<longrightarrow> derived_from f v"
    by (auto simp: makeWeakPtr_def WeakPtr_ctor_def derived_from_def split: if_splits)
  moreover have "derived_from f (WeakPtr_copy w) \<and> derived_from f (fst (WeakPtr_move w)) \<and>
            derived_from f (fst (WeakPtr_convert up w))"
    using assms(3) by (simp add: derived_from_def WeakPtr_copy_def WeakPtr_move_def WeakPtr_convert_def)
  moreover have "expired hpx w = Inr (True, hpx) \<and>
            operator_bool hpx w = Inr (False, hpx) \<and>
            object hpx w = Inr (None, hpx) \<and>
            (lock hpx w = Inl Blocked \<or> lock hpx w = Inr (WeakPtrGuard None, hpx))"
    if r: "rtranclp sys_step (hp1, ts) (hpx, tsx)"
  proof -
    from factory_dtor_post[OF assms(1)] a(1) have "a < length hp1" "\<not> flag hp1 (Some a)"
      by auto
    with sys_steps_cleared[OF r, of a] have "\<not> flag hpx (Some a)" by simp
    with w show ?thesis
      by (simp add: expired_eq operator_bool_eq object_eq lock_eq)
  qed
  ultimately show ?thesis
    using invalid_link_calls(1-4)[OF w a(2,3)] by simp
qed

theorem destroyed_factory_handles_expired_witness:
  "WeakPtrFactory_dtor [block 1 0 True] \<lparr>strong_m = Some 0, obj_m = Some (7::nat)\<rparr>
     = Inr [block 0 0 False] \<and>
   run (0::nat, [block 0 0 False])
       [New_Factory (Some (8::nat)), Lock \<lparr>weak_m = Some 0, ptr_m = Some 7\<rparr>,
        Lock \<lparr>weak_m = Some 1, ptr_m = Some 8\<rparr>,
        Call_Weak_Method (\<lparr>weak_m = Some 0, ptr_m = Some 7\<rparr>, \<lambda>obj (p::nat) wd. wd + p) 5]
     = Inr (0, [block 0 0 False, block 2 1 True]) \<and>
   makeWeakPtr \<lparr>strong_m = Some 0, obj_m = Some (7::nat)\<rparr> = Inr \<lparr>weak_m = Some 0, ptr_m = Some 7\<rparr> \<and>
   derived_from \<lparr>strong_m = Some 0, obj_m = Some (7::nat)\<rparr> \<lparr>weak_m = Some 0, ptr_m = Some (7::nat)\<rparr> \<and>
   expired [block 0 0 False, block 2 1 True] \<lparr>weak_m = Some 0, ptr_m = Some (7::nat)\<rparr>
     = Inr (True, [block 0 0 False, block 2 1 True]) \<and>
   lock [block 0 0 False, block 2 1 True] \<lparr>weak_m = Some 0, ptr_m = Some (7::nat)\<rparr>
     = Inr (WeakPtrGuard None, [block 0 0 False, block 2 1 True]) \<and>
   object [block 0 0 False, block 2 1 True] \<lparr>weak_m = Some 0, ptr_m = Some (7::nat)\<rparr>
     = Inr (None, [block 0 0 False, block 2 1 True]) \<and>
   rtranclp sys_step ([block 0 0 False], []) ([block 0 0 False, block 1 0 True], [\<lparr>guards = [], pc = Idle\<rparr>]) \<and>
   expired [block 0 0 False, block 1 0 True] \<lparr>weak_m = Some 0, ptr_m = Some (7::nat)\<rparr>
     = Inr (True, [block 0 0 False, block 1 0 True])"
proof -
  have d: "WeakPtrFactory_dtor [block 1 0 True] \<lparr>strong_m = Some 0, obj_m = Some (7::nat)\<rparr>
             = Inr [block 0 0 False]"
    by (simp add: call_defs prim_defs)
  have r: "run (0::nat, [block 0 0 False])
             [New_Factory (Some (8::nat)), Lock \<lparr>weak_m = Some 0, ptr_m = Some 7\<rparr>,
              Lock \<lparr>weak_m = Some 1, ptr_m = Some 8\<rparr>,
              Call_Weak_Method (\<lparr>weak_m = Some 0, ptr_m = Some 7\<rparr>, \<lambda>obj (p::nat) wd. wd + p) 5]
             = Inr (0, [block 0 0 False, block 2 1 True])"
    by (simp add: call_weak_method_eq lock_eq call_defs prim_defs)
  have m: "makeWeakPtr \<lparr>strong_m = Some 0, obj_m = Some (7::nat)\<rparr>
             = Inr \<lparr>weak_m = Some 0, ptr_m = Some 7\<rparr>"
    by (simp add: call_defs)
  have v: "derived_from \<lparr>strong_m = Some 0, obj_m = Some (7::nat)\<rparr>
             \<lparr>weak_m = Some 0, ptr_m = Some (7::nat)\<rparr>"
    by (simp add: derived_from_def)
  have y1: "sys_step ([block 0 0 False], []) ([block 0 0 False], [\<lparr>guards = [], pc = Idle\<rparr>])"
    using new_thread[of "[block 0 0 False]" "[]"] by simp
  have "thread_step ([block 0 0 False], \<lparr>guards = [], pc = Idle\<rparr>)
          ([block 0 0 False, block 1 0 True], \<lparr>guards = [], pc = Idle\<rparr>)"
    using factory_ctor[of "\<lparr>guards = [], pc = Idle\<rparr>" "[block 0 0 False]"]
    by (simp add: prim_defs)
  then have y2: "sys_step ([block 0 0 False], [\<lparr>guards = [], pc = Idle\<rparr>])
                   ([block 0 0 False, block 1 0 True], [\<lparr>guards = [], pc = Idle\<rparr>])"
    using run_thread[of 0 "[\<lparr>guards = [], pc = Idle\<rparr>]" "[block 0 0 False]"
                        "[block 0 0 False, block 1 0 True]" "\<lparr>guards = [], pc = Idle\<rparr>"]
    by simp
  from y1 y2 have y: "rtranclp sys_step ([block 0 0 False], [])
                        ([block 0 0 False, block 1 0 True], [\<lparr>guards = [], pc = Idle\<rparr>])"
    by (rule converse_rtranclp_into_rtranclp[OF _ r_into_rtranclp])
  from destroyed_factory_handles_expired
         [where v = "\<lparr>weak_m = Some 0, ptr_m = Some (7::nat)\<rparr>" and up = int
            and ts = "[]" and hpx = "[block 0 0 False, block 1 0 True]"
            and tsx = "[\<lparr>guards = [], pc = Idle\<rparr>]", OF d r v]
       d r m v y
  show ?thesis by simp
qed

subsection \<open>Bound methods\<close>

text \<open>
  C7. The closure \<^verbatim>\<open>makeWeakMethod\<close> returns holds a handle made by the factory and the
  method. A call of it first takes \<^verbatim>\<open>lock()\<close>, and waits or fails only if that does.
  If \<^verbatim>\<open>object()\<close> then yields the object, the call applies the method to the object and
  the arguments as given; if it yields null, the host's state is what it was. In both cases
  the call returns without error and the Guard is released: the heap is what it was before
  the call. After the factory's destructor has returned, and any calls after it, a call of
  the closure changes nothing.
\<close>

theorem weak_method_call:
  "(makeWeakMethod f m = Inr c \<longrightarrow> makeWeakPtr f = Inr (fst c) \<and> snd c = m) \<and>
   (lock hp w = Inl e \<longrightarrow> call_weak_method (w, m) ps (wd, hp) = Inl e) \<and>
   (lock hp w = Inr (g, hp') \<and> object hp' w = Inr (Some obj, hp') \<longrightarrow>
      call_weak_method (w, m) ps (wd, hp) = Inr (m obj ps wd, hp)) \<and>
   (lock hp w = Inr (g, hp') \<and> object hp' w = Inr (None, hp') \<longrightarrow>
      call_weak_method (w, m) ps (wd, hp) = Inr (wd, hp)) \<and>
   (WeakPtrFactory_dtor hpa f = Inr hpb \<and> run (wda, hpb) ks = Inr (wd, hpc) \<and>
    makeWeakMethod f m = Inr c \<longrightarrow>
      call_weak_method c ps (wd, hpc) = Inr (wd, hpc))"
proof (intro conjI impI)
  assume "makeWeakMethod f m = Inr c"
  then show "makeWeakPtr f = Inr (fst c)" and "snd c = m"
    by (auto simp: makeWeakMethod_def bind_res_Inr_iff)
next
  assume "lock hp w = Inl e"
  then show "call_weak_method (w, m) ps (wd, hp) = Inl e"
    by (simp add: call_weak_method_def)
next
  assume h: "lock hp w = Inr (g, hp') \<and> object hp' w = Inr (Some obj, hp')"
  from lock_result[of hp w g hp'] h
  show "call_weak_method (w, m) ps (wd, hp) = Inr (m obj ps wd, hp)"
    by (auto simp: call_weak_method_eq object_eq lock_eq alive_def held_props
             split: if_splits option.splits)
next
  assume h: "lock hp w = Inr (g, hp') \<and> object hp' w = Inr (None, hp')"
  from lock_result[of hp w g hp'] h
  show "call_weak_method (w, m) ps (wd, hp) = Inr (wd, hp)"
    by (auto simp: call_weak_method_eq object_eq lock_eq alive_def held_props
             split: if_splits option.splits)
next
  assume h: "WeakPtrFactory_dtor hpa f = Inr hpb \<and> run (wda, hpb) ks = Inr (wd, hpc) \<and>
             makeWeakMethod f m = Inr c"
  then obtain a where a: "strong_m f = Some a" "\<not> flag hpc (Some a)"
    "\<not> writer_held hpc (Some a)"
    using after_destruction[of hpa f hpb wda ks wd hpc] by blast
  from h a(1) obtain w where c: "c = (w, m)" and w: "weak_m w = Some a"
    by (auto simp: makeWeakMethod_def makeWeakPtr_def WeakPtr_ctor_def bind_res_Inr_iff
             split: if_splits)
  from invalid_link_calls(5)[OF w a(2,3)] show "call_weak_method c ps (wd, hpc) = Inr (wd, hpc)"
    by (simp add: c)
qed

theorem weak_method_call_witness:
  "makeWeakMethod \<lparr>strong_m = Some 0, obj_m = Some (7::nat)\<rparr> (\<lambda>obj (p::nat) wd. wd + obj * p)
     = Inr (\<lparr>weak_m = Some 0, ptr_m = Some 7\<rparr>, \<lambda>obj (p::nat) wd. wd + obj * p) \<and>
   lock [block 1 0 True] \<lparr>weak_m = Some 0, ptr_m = Some (7::nat)\<rparr>
     = Inr (WeakPtrGuard (Some 0), [block 2 1 True]) \<and>
   object [block 2 1 True] \<lparr>weak_m = Some 0, ptr_m = Some (7::nat)\<rparr> = Inr (Some 7, [block 2 1 True]) \<and>
   call_weak_method (\<lparr>weak_m = Some 0, ptr_m = Some (7::nat)\<rparr>, \<lambda>obj (p::nat) wd. wd + obj * p) 5
       (100::nat, [block 1 0 True])
     = Inr (135, [block 1 0 True]) \<and>
   WeakPtrFactory_dtor [block 1 0 True] \<lparr>strong_m = Some 0, obj_m = Some (7::nat)\<rparr>
     = Inr [block 0 0 False] \<and>
   run (100::nat, [block 0 0 False])
       [Expired \<lparr>weak_m = Some 0, ptr_m = Some (7::nat)\<rparr>,
        Call_Weak_Method (\<lparr>weak_m = Some 0, ptr_m = Some 7\<rparr>, \<lambda>obj (p::nat) wd. wd + obj * p) 5]
     = Inr (100, [block 0 0 False]) \<and>
   lock [block 0 0 False] \<lparr>weak_m = Some 0, ptr_m = Some (7::nat)\<rparr>
     = Inr (WeakPtrGuard None, [block 0 0 False]) \<and>
   object [block 0 0 False] \<lparr>weak_m = Some 0, ptr_m = Some (7::nat)\<rparr> = Inr (None, [block 0 0 False]) \<and>
   call_weak_method (\<lparr>weak_m = Some 0, ptr_m = Some (7::nat)\<rparr>, \<lambda>obj (p::nat) wd. wd + obj * p) 5
       (100::nat, [block 0 0 False])
     = Inr (100, [block 0 0 False]) \<and>
   lock [\<lparr>use_count = 1, data = \<lparr>mutex_readers = 0, mutex_writer = True, valid_m = True\<rparr>\<rparr>]
        \<lparr>weak_m = Some 0, ptr_m = Some (7::nat)\<rparr> = Inl Blocked"
proof -
  have mk: "makeWeakMethod \<lparr>strong_m = Some 0, obj_m = Some (7::nat)\<rparr> (\<lambda>obj (p::nat) wd. wd + obj * p)
     = Inr (\<lparr>weak_m = Some 0, ptr_m = Some 7\<rparr>, \<lambda>obj (p::nat) wd. wd + obj * p)"
    by (simp add: call_defs)
  have l1: "lock [block 1 0 True] \<lparr>weak_m = Some 0, ptr_m = Some (7::nat)\<rparr>
     = Inr (WeakPtrGuard (Some 0), [block 2 1 True])"
    by (simp add: lock_eq prim_defs)
  have o1: "object [block 2 1 True] \<lparr>weak_m = Some 0, ptr_m = Some (7::nat)\<rparr>
     = Inr (Some 7, [block 2 1 True])"
    by (simp add: object_eq prim_defs)
  have d: "WeakPtrFactory_dtor [block 1 0 True] \<lparr>strong_m = Some 0, obj_m = Some (7::nat)\<rparr>
     = Inr [block 0 0 False]"
    by (simp add: call_defs prim_defs)
  have r: "run (100::nat, [block 0 0 False])
       [Expired \<lparr>weak_m = Some 0, ptr_m = Some (7::nat)\<rparr>,
        Call_Weak_Method (\<lparr>weak_m = Some 0, ptr_m = Some 7\<rparr>, \<lambda>obj (p::nat) wd. wd + obj * p) 5]
     = Inr (100, [block 0 0 False])"
    by (simp add: expired_eq call_weak_method_eq prim_defs)
  have l2: "lock [block 0 0 False] \<lparr>weak_m = Some 0, ptr_m = Some (7::nat)\<rparr>
     = Inr (WeakPtrGuard None, [block 0 0 False])"
    by (simp add: lock_eq prim_defs)
  have o2: "object [block 0 0 False] \<lparr>weak_m = Some 0, ptr_m = Some (7::nat)\<rparr>
     = Inr (None, [block 0 0 False])"
    by (simp add: object_eq prim_defs)
  have l3: "lock [\<lparr>use_count = 1, data = \<lparr>mutex_readers = 0, mutex_writer = True, valid_m = True\<rparr>\<rparr>]
        \<lparr>weak_m = Some 0, ptr_m = Some (7::nat)\<rparr> = Inl Blocked"
    by (simp add: lock_eq prim_defs)
  from weak_method_call
         [where f = "\<lparr>strong_m = Some 0, obj_m = Some (7::nat)\<rparr>"
            and m = "\<lambda>obj (p::nat) wd. wd + obj * p"
            and c = "(\<lparr>weak_m = Some 0, ptr_m = Some 7\<rparr>, \<lambda>obj (p::nat) wd. wd + obj * p)"
            and hp = "[block 1 0 True]" and w = "\<lparr>weak_m = Some 0, ptr_m = Some (7::nat)\<rparr>"
            and g = "WeakPtrGuard (Some 0)" and hp' = "[block 2 1 True]" and obj = 7
            and ps = 5 and wd = "100::nat" and hpa = "[block 1 0 True]"
            and hpb = "[block 0 0 False]" and wda = "100::nat"
            and ks = "[Expired \<lparr>weak_m = Some 0, ptr_m = Some (7::nat)\<rparr>,
                       Call_Weak_Method (\<lparr>weak_m = Some 0, ptr_m = Some 7\<rparr>,
                                         \<lambda>obj (p::nat) wd. wd + obj * p) 5]"
            and hpc = "[block 0 0 False]"
            and e = Blocked]
       weak_method_call
         [where f = "\<lparr>strong_m = Some 0, obj_m = Some (7::nat)\<rparr>"
            and m = "\<lambda>obj (p::nat) wd. wd + obj * p"
            and c = "(\<lparr>weak_m = Some 0, ptr_m = Some 7\<rparr>, \<lambda>obj (p::nat) wd. wd + obj * p)"
            and hp = "[block 0 0 False]" and w = "\<lparr>weak_m = Some 0, ptr_m = Some (7::nat)\<rparr>"
            and g = "WeakPtrGuard None" and hp' = "[block 0 0 False]" and obj = 7
            and ps = 5 and wd = "100::nat" and hpa = "[block 1 0 True]"
            and hpb = "[block 0 0 False]" and wda = "100::nat"
            and ks = "[Expired \<lparr>weak_m = Some 0, ptr_m = Some (7::nat)\<rparr>,
                       Call_Weak_Method (\<lparr>weak_m = Some 0, ptr_m = Some 7\<rparr>,
                                         \<lambda>obj (p::nat) wd. wd + obj * p) 5]"
            and hpc = "[block 0 0 False]"
            and e = Blocked]
       mk l1 o1 d r l2 o2 l3
  show ?thesis by simp
qed

subsection \<open>\<^verbatim>\<open>expired\<close> is monotone\<close>

text \<open>
  C8. For a handle whose link is empty or names an allocated control block: a call of
  \<^verbatim>\<open>expired()\<close> leaves the heap as it was, so an immediate second call returns the same;
  and once a call has returned true, a call after any sequence of calls of the library
  that returns also returns true.
\<close>

theorem expired_monotone:
  assumes "linked hp (weak_m w)"
    and "expired hp w = Inr (True, hp1)"
    and "run (wd, hp1) ks = Inr (wd', hp2)"
  shows "hp1 = hp \<and> expired hp1 w = Inr (True, hp1) \<and> expired hp2 w = Inr (True, hp2)"
proof -
  from assms(2) have hp1: "hp1 = hp"
    and ex: "\<not> (alive hp (weak_m w) \<and> flag hp (weak_m w))"
    by (auto simp: expired_eq)
  have "\<not> (alive hp2 (weak_m w) \<and> flag hp2 (weak_m w))"
  proof (cases "weak_m w")
    case None
    then show ?thesis by (simp add: alive_def)
  next
    case (Some a)
    with assms(1) have a: "a < length hp" by (simp add: linked_def)
    from heap_le_run[OF assms(3)] a ex show ?thesis
      by (auto simp: Some hp1 heap_le_def alive_def)
  qed
  with hp1 ex show ?thesis by (simp add: expired_eq)
qed

theorem expired_monotone_witness:
  "linked [block 1 0 True, block 1 0 False] (weak_m \<lparr>weak_m = Some 1, ptr_m = Some (7::nat)\<rparr>) \<and>
   expired [block 1 0 True, block 1 0 False] \<lparr>weak_m = Some 1, ptr_m = Some (7::nat)\<rparr>
     = Inr (True, [block 1 0 True, block 1 0 False]) \<and>
   run (0::nat, [block 1 0 True, block 1 0 False])
       [New_Factory (Some (8::nat)), Lock \<lparr>weak_m = Some 0, ptr_m = Some 7\<rparr>,
        Destroy_Factory \<lparr>strong_m = Some 1, obj_m = Some 7\<rparr>,
        Call_Weak_Method (\<lparr>weak_m = Some 0, ptr_m = Some 7\<rparr>, \<lambda>obj (p::nat) wd. wd + p) 5,
        Destroy_Guard (WeakPtrGuard (Some 0))]
     = Inr (5, [block 1 0 True, block 0 0 False, block 1 0 True]) \<and>
   expired [block 1 0 True, block 0 0 False, block 1 0 True] \<lparr>weak_m = Some 1, ptr_m = Some (7::nat)\<rparr>
     = Inr (True, [block 1 0 True, block 0 0 False, block 1 0 True])"
proof -
  have l: "linked [block 1 0 True, block 1 0 False] (weak_m \<lparr>weak_m = Some 1, ptr_m = Some (7::nat)\<rparr>)"
    by (simp add: linked_def)
  have e: "expired [block 1 0 True, block 1 0 False] \<lparr>weak_m = Some 1, ptr_m = Some (7::nat)\<rparr>
     = Inr (True, [block 1 0 True, block 1 0 False])"
    by (simp add: expired_eq prim_defs)
  have r: "run (0::nat, [block 1 0 True, block 1 0 False])
       [New_Factory (Some (8::nat)), Lock \<lparr>weak_m = Some 0, ptr_m = Some 7\<rparr>,
        Destroy_Factory \<lparr>strong_m = Some 1, obj_m = Some 7\<rparr>,
        Call_Weak_Method (\<lparr>weak_m = Some 0, ptr_m = Some 7\<rparr>, \<lambda>obj (p::nat) wd. wd + p) 5,
        Destroy_Guard (WeakPtrGuard (Some 0))]
     = Inr (5, [block 1 0 True, block 0 0 False, block 1 0 True])"
    by (simp add: lock_eq call_weak_method_eq call_defs prim_defs)
  from expired_monotone[OF l e r] l e r
  show ?thesis by simp
qed

end
